theory Spec2Isabelle
  imports Complex_Main "HOL-Library.Multiset"
begin

section \<open>Posts.js: loading, filtering and sorting of posts\<close>

text \<open>
  A shallow embedding of \<^verbatim>\<open>src/Games/GetDinoFood/_data/Posts.js\<close>. The script keeps its
  state in closure variables (\<^verbatim>\<open>allPosts\<close>, \<^verbatim>\<open>displayedPosts\<close>, \<^verbatim>\<open>allTags\<close>,
  \<^verbatim>\<open>currentSort\<close>, \<^verbatim>\<open>currentTag\<close>) and the message box; here they are the fields of a
  record that every function takes and returns. Exceptions are values. What the script
  takes from the browser (\<^verbatim>\<open>JSON.parse\<close>, \<^verbatim>\<open>DOMParser\<close>, \<^verbatim>\<open>Date\<close> parsing, the order
  \<^verbatim>\<open>Array.prototype.sort\<close> produces where ECMAScript leaves it to the implementation)
  is a parameter, the record \<open>platform\<close>. The construction of markup (\<^verbatim>\<open>renderPost\<close>,
  \<^verbatim>\<open>renderPosts\<close>, \<^verbatim>\<open>renderTags\<close>) is not modelled.
\<close>

subsection \<open>JavaScript values\<close>

text \<open>
  The values \<^verbatim>\<open>JSON.parse\<close> returns, and \<^verbatim>\<open>undefined\<close> for a property that is absent.
  An object is the list of its own properties in source order; on a repeated key the later
  entry wins, as in \<^verbatim>\<open>JSON.parse\<close>. The posts built from XML are objects of the same kind.
\<close>

datatype jsval =
    JUndefined
  | JNull
  | JBool bool
  | JNum rat
  | JStr string
  | JArr "jsval list"
  | JObj "(string \<times> jsval) list"

datatype js_error = TypeError | SyntaxError | Error string

text \<open>
  Reading a property \<^verbatim>\<open>v.k\<close>, for the names the script reads (\<^verbatim>\<open>tags\<close>, \<^verbatim>\<open>date\<close>,
  \<^verbatim>\<open>title\<close>, \<^verbatim>\<open>content\<close>, \<^verbatim>\<open>img\<close>, \<^verbatim>\<open>src\<close>, \<^verbatim>\<open>alt\<close>): none of them is defined on a
  prototype, so the read gives an own property of an object or \<^verbatim>\<open>undefined\<close>, and raises
  TypeError on \<^verbatim>\<open>null\<close> and \<^verbatim>\<open>undefined\<close>.
\<close>

fun get_prop :: "jsval \<Rightarrow> string \<Rightarrow> js_error + jsval" where
  "get_prop JUndefined k = Inl TypeError"
| "get_prop JNull k = Inl TypeError"
| "get_prop (JObj kvs) k = Inr (case map_of (rev kvs) k of None \<Rightarrow> JUndefined | Some v \<Rightarrow> v)"
| "get_prop v k = Inr JUndefined"

text \<open>\<^verbatim>\<open>String.prototype.includes\<close>: the argument occurs as a substring.\<close>

fun str_includes :: "string \<Rightarrow> string \<Rightarrow> bool" where
  "str_includes [] t = (t = [])"
| "str_includes (c # s) t = (take (length t) (c # s) = t \<or> str_includes s t)"

text \<open>
  The call \<^verbatim>\<open>v.includes(t)\<close> with a string \<open>t\<close>: on an array it compares the elements with
  \<open>t\<close> (SameValueZero, so only an element that is the same string matches), on a string it
  is the substring test, and every other value has no callable \<^verbatim>\<open>includes\<close>.
\<close>

fun js_includes :: "jsval \<Rightarrow> string \<Rightarrow> js_error + bool" where
  "js_includes (JArr xs) t = Inr (JStr t \<in> set xs)"
| "js_includes (JStr s) t = Inr (str_includes s t)"
| "js_includes v t = Inl TypeError"

text \<open>\<^verbatim>\<open>Array.prototype.filter\<close> with a callback that may raise: the first raise ends it.\<close>

fun array_filter :: "('a \<Rightarrow> js_error + bool) \<Rightarrow> 'a list \<Rightarrow> js_error + 'a list" where
  "array_filter f [] = Inr []"
| "array_filter f (x # xs) =
     (case f x of
        Inl e \<Rightarrow> Inl e
      | Inr b \<Rightarrow> (case array_filter f xs of
                   Inl e \<Rightarrow> Inl e
                 | Inr ys \<Rightarrow> Inr (if b then x # ys else ys)))"

text \<open>\<^verbatim>\<open>String.prototype.endsWith\<close>.\<close>

definition ends_with :: "string \<Rightarrow> string \<Rightarrow> bool" where
  "ends_with s suffix =
     (length suffix \<le> length s \<and> drop (length s - length suffix) s = suffix)"

subsection \<open>The XML document\<close>

text \<open>
  The document \<^verbatim>\<open>DOMParser.parseFromString\<close> returns, as the tree of its root element:
  elements with their children in document order, and text. Element names are compared as
  written (an XML document is case-sensitive).
\<close>

datatype xnode = XElem string "xnode list" | XText string

fun textContent :: "xnode \<Rightarrow> string" where
  "textContent (XText s) = s"
| "textContent (XElem n cs) = concat (map textContent cs)"

fun xname :: "xnode \<Rightarrow> string" where
  "xname (XElem n cs) = n"
| "xname (XText s) = []"

fun xchildren :: "xnode \<Rightarrow> xnode list" where
  "xchildren (XElem n cs) = cs"
| "xchildren (XText s) = []"

text \<open>
  The elements of a subtree in document order, the subtree's root first, each with the
  names of its ancestors (the nearest first). The list \<open>anc\<close> holds the ancestors of the
  subtree's root.
\<close>

fun elements :: "string list \<Rightarrow> xnode \<Rightarrow> (string list \<times> xnode) list" where
  "elements anc (XText s) = []"
| "elements anc (XElem n cs) = (anc, XElem n cs) # concat (map (elements (n # anc)) cs)"

text \<open>The descendants of an element, which is what a selector query on it ranges over.\<close>

definition descendants :: "string list \<times> xnode \<Rightarrow> (string list \<times> xnode) list" where
  "descendants e = concat (map (elements (xname (snd e) # fst e)) (xchildren (snd e)))"

text \<open>
  \<^verbatim>\<open>e.querySelectorAll('n')\<close> and \<^verbatim>\<open>e.querySelectorAll('a n')\<close>: the descendants of \<open>e\<close>
  named \<open>n\<close>, for the second form those with an ancestor named \<open>a\<close>. The selector is
  matched in the whole document, so the ancestor may be \<open>e\<close> or lie above it.
  \<^verbatim>\<open>querySelector\<close> is the first match, if any.
\<close>

definition querySelectorAll :: "string \<Rightarrow> string list \<times> xnode \<Rightarrow> (string list \<times> xnode) list" where
  "querySelectorAll n e = filter (\<lambda>d. xname (snd d) = n) (descendants e)"

definition querySelectorAll2 ::
  "string \<Rightarrow> string \<Rightarrow> string list \<times> xnode \<Rightarrow> (string list \<times> xnode) list" where
  "querySelectorAll2 a n e =
     filter (\<lambda>d. xname (snd d) = n \<and> a \<in> set (fst d)) (descendants e)"

definition querySelector :: "string \<Rightarrow> string list \<times> xnode \<Rightarrow> (string list \<times> xnode) option" where
  "querySelector n e = (case querySelectorAll n e of [] \<Rightarrow> None | d # ds \<Rightarrow> Some d)"

definition querySelector2 ::
  "string \<Rightarrow> string \<Rightarrow> string list \<times> xnode \<Rightarrow> (string list \<times> xnode) option" where
  "querySelector2 a n e = (case querySelectorAll2 a n e of [] \<Rightarrow> None | d # ds \<Rightarrow> Some d)"

text \<open>\<^verbatim>\<open>e.querySelector('n')?.textContent || ''\<close>.\<close>

definition text_or_empty :: "string \<Rightarrow> string list \<times> xnode \<Rightarrow> string" where
  "text_or_empty n e = (case querySelector n e of None \<Rightarrow> [] | Some d \<Rightarrow> textContent (snd d))"

text \<open>The body of the loop of \<^verbatim>\<open>parseXmlData\<close> (lines 68-86): one post from one element.\<close>

definition post_of_element :: "string list \<times> xnode \<Rightarrow> jsval" where
  "post_of_element post =
     (let title = text_or_empty ''Title'' post;
          date = text_or_empty ''Date'' post;
          content = text_or_empty ''Content'' post;
          tags = map (\<lambda>t. JStr (textContent (snd t))) (querySelectorAll2 ''tags'' ''tag'' post);
          img = (case querySelector2 ''img'' ''image'' post of
                   None \<Rightarrow> JNull
                 | Some imgElement \<Rightarrow>
                     JObj [(''src'', JStr (text_or_empty ''src'' imgElement)),
                           (''alt'', JStr (text_or_empty ''alt'' imgElement))])
      in JObj [(''title'', JStr title), (''date'', JStr date), (''content'', JStr content),
               (''img'', img), (''tags'', JArr tags)])"

text \<open>
  \<^verbatim>\<open>parseXmlData\<close> (lines 62-89), from the parsed document on: every element named
  \<^verbatim>\<open>Post\<close> of the document, the root included, gives one post. It has no branch that
  raises.
\<close>

definition parseXmlData_doc :: "xnode \<Rightarrow> jsval list" where
  "parseXmlData_doc doc =
     map post_of_element (filter (\<lambda>d. xname (snd d) = ''Post'') (elements [] doc))"

subsection \<open>\<^verbatim>\<open>parseJsonData\<close>\<close>

text \<open>Lines 48-59: an array is returned as it is, any other value is wrapped.\<close>

fun parseJsonData :: "jsval \<Rightarrow> jsval list" where
  "parseJsonData (JArr xs) = xs"
| "parseJsonData v = [v]"

subsection \<open>What the browser provides\<close>

text \<open>
  \<^item> \<open>json_parse\<close>: \<^verbatim>\<open>JSON.parse\<close>; \<open>None\<close> when it raises SyntaxError.
  \<^item> \<open>dom_parse\<close>: \<^verbatim>\<open>new DOMParser().parseFromString(text, "text/xml")\<close>. It returns a
    document for every text and never raises; for a text that is not well-formed the
    document is an error document (a \<^verbatim>\<open>parsererror\<close> element).
  \<^item> \<open>date_parse\<close>: \<^verbatim>\<open>Date.parse\<close>, the time value in milliseconds of a date string;
    \<open>None\<close> is \<^verbatim>\<open>NaN\<close>, the time value of an invalid date.
  \<^item> \<open>object_to_string\<close>: the conversion of an array or object to a primitive, which
    \<^verbatim>\<open>new Date\<close> applies to such an argument; it gives a string or raises TypeError.
  \<^item> \<open>sort_impl\<close>: the order \<^verbatim>\<open>Array.prototype.sort\<close> produces where ECMAScript leaves
    the sort order to the implementation.
  \<^item> \<open>error_text\<close>: the \<^verbatim>\<open>message\<close> of an error raised by the engine.
\<close>

record platform =
  json_parse :: "string \<Rightarrow> jsval option"
  dom_parse :: "string \<Rightarrow> xnode"
  date_parse :: "string \<Rightarrow> int option"
  object_to_string :: "jsval \<Rightarrow> js_error + string"
  sort_impl :: "(jsval \<Rightarrow> jsval \<Rightarrow> int) \<Rightarrow> jsval list \<Rightarrow> jsval list"
  error_text :: "js_error \<Rightarrow> string"

definition parseXmlData :: "platform \<Rightarrow> string \<Rightarrow> jsval list" where
  "parseXmlData P xmlString = parseXmlData_doc (dom_parse P xmlString)"

subsection \<open>Dates and the two comparators\<close>

text \<open>
  A number is \<open>None\<close> for \<^verbatim>\<open>NaN\<close>, else \<open>Some\<close> of its value. The numbers of the
  comparators are time values and their differences: integers (milliseconds). A time
  value is at most \<open>8.64e15\<close> in magnitude, so a difference of two of them is rounded by
  less than one and keeps its sign, and is zero only for equal time values.
\<close>

definition time_clip :: "rat \<Rightarrow> int option" where
  "time_clip r =
     (if \<bar>r\<bar> \<le> 8640000000000000 then Some (if r < 0 then - \<lfloor>- r\<rfloor> else \<lfloor>r\<rfloor>) else None)"

text \<open>\<^verbatim>\<open>new Date(v)\<close>, as its time value.\<close>

fun new_Date :: "platform \<Rightarrow> jsval \<Rightarrow> js_error + int option" where
  "new_Date P JUndefined = Inr None"
| "new_Date P JNull = Inr (Some 0)"
| "new_Date P (JBool b) = Inr (Some (if b then 1 else 0))"
| "new_Date P (JNum r) = Inr (time_clip r)"
| "new_Date P (JStr s) = Inr (date_parse P s)"
| "new_Date P v =
     (case object_to_string P v of Inl e \<Rightarrow> Inl e | Inr s \<Rightarrow> Inr (date_parse P s))"

text \<open>\<^verbatim>\<open>new Date(post.date)\<close>.\<close>

definition post_date :: "platform \<Rightarrow> jsval \<Rightarrow> js_error + int option" where
  "post_date P post =
     (case get_prop post ''date'' of Inl e \<Rightarrow> Inl e | Inr v \<Rightarrow> new_Date P v)"

definition num_sub :: "int option \<Rightarrow> int option \<Rightarrow> int option" where
  "num_sub x y =
     (case x of None \<Rightarrow> None | Some a \<Rightarrow> (case y of None \<Rightarrow> None | Some b \<Rightarrow> Some (a - b)))"

text \<open>
  Line 197, \<^verbatim>\<open>(a, b) => new Date(a.date) - new Date(b.date)\<close>, and line 199 with the
  operands exchanged. The left operand is evaluated first.
\<close>

definition compare_asc :: "platform \<Rightarrow> jsval \<Rightarrow> jsval \<Rightarrow> js_error + int option" where
  "compare_asc P a b =
     (case post_date P a of
        Inl e \<Rightarrow> Inl e
      | Inr x \<Rightarrow> (case post_date P b of Inl e \<Rightarrow> Inl e | Inr y \<Rightarrow> Inr (num_sub x y)))"

definition compare_desc :: "platform \<Rightarrow> jsval \<Rightarrow> jsval \<Rightarrow> js_error + int option" where
  "compare_desc P a b =
     (case post_date P b of
        Inl e \<Rightarrow> Inl e
      | Inr y \<Rightarrow> (case post_date P a of Inl e \<Rightarrow> Inl e | Inr x \<Rightarrow> Inr (num_sub y x)))"

subsection \<open>\<^verbatim>\<open>Array.prototype.sort\<close> with a comparator\<close>

text \<open>
  The comparator is called through SortCompare, which takes a result \<^verbatim>\<open>NaN\<close> for
  \<open>+0\<close>. ECMAScript fixes the result of \<^verbatim>\<open>sort\<close> only when SortCompare is a
  consistent comparator for the elements: the relations "negative", "zero", "positive" it
  induces are reflexive, symmetric and transitive as below. Then the result is the sorted
  permutation that keeps the order of elements comparing as equal (the sort is stable),
  which is unique. Otherwise the sort order is implementation-defined.
\<close>

definition sort_compare :: "('a \<Rightarrow> 'a \<Rightarrow> js_error + int option) \<Rightarrow> 'a \<Rightarrow> 'a \<Rightarrow> int" where
  "sort_compare c a b = (case c a b of Inr (Some d) \<Rightarrow> d | _ \<Rightarrow> 0)"

definition consistent_comparator :: "('a \<Rightarrow> 'a \<Rightarrow> int) \<Rightarrow> 'a list \<Rightarrow> bool" where
  "consistent_comparator c xs =
     (\<forall>a \<in> set xs. \<forall>b \<in> set xs. \<forall>d \<in> set xs.
        c a a = 0
      \<and> (c a b = 0 \<longrightarrow> c b a = 0)
      \<and> (c a b = 0 \<and> c b d = 0 \<longrightarrow> c a d = 0)
      \<and> (c a b < 0 \<and> c b d < 0 \<longrightarrow> c a d < 0)
      \<and> (c a b > 0 \<and> c b d > 0 \<longrightarrow> c a d > 0))"

text \<open>
  The stable sort, by insertion from the right: an element goes before the first element
  of the sorted rest that it does not follow, so before the elements it compares equal to,
  which came after it.
\<close>

fun insert_sorted :: "('a \<Rightarrow> 'a \<Rightarrow> int) \<Rightarrow> 'a \<Rightarrow> 'a list \<Rightarrow> 'a list" where
  "insert_sorted c x [] = [x]"
| "insert_sorted c x (y # ys) = (if c x y \<le> 0 then x # y # ys else y # insert_sorted c x ys)"

definition stable_sort :: "('a \<Rightarrow> 'a \<Rightarrow> int) \<Rightarrow> 'a list \<Rightarrow> 'a list" where
  "stable_sort c xs = foldr (insert_sorted c) xs []"

text \<open>
  The first error among the comparator's results on the elements. Which pairs an engine
  compares is its choice; each comparator of this script raises exactly when one of its two
  arguments is a post whose date cannot be read, whatever the other is, and always
  TypeError, so a sort of two or more elements, which compares each element at least once,
  raises if and only if this finds an error.
\<close>

definition first_raise :: "('a \<Rightarrow> 'a \<Rightarrow> js_error + int option) \<Rightarrow> 'a list \<Rightarrow> js_error option" where
  "first_raise c xs =
     (case List.map_filter (\<lambda>ab. case c (fst ab) (snd ab) of Inl e \<Rightarrow> Some e | Inr v \<Rightarrow> None)
             (List.product xs xs) of
        [] \<Rightarrow> None
      | e # es \<Rightarrow> Some e)"

text \<open>
  \<^verbatim>\<open>xs.sort(c)\<close> on the elements of the array. With fewer than two elements the
  comparator is not called. The array is written only after the sort has completed, so
  a raise leaves it as it was.
\<close>

definition array_sort ::
  "platform \<Rightarrow> (jsval \<Rightarrow> jsval \<Rightarrow> js_error + int option) \<Rightarrow> jsval list \<Rightarrow> js_error + jsval list" where
  "array_sort P c xs =
     (if length xs < 2 then Inr xs
      else case first_raise c xs of
             Some e \<Rightarrow> Inl e
           | None \<Rightarrow>
               if consistent_comparator (sort_compare c) xs
               then Inr (stable_sort (sort_compare c) xs)
               else Inr (sort_impl P (sort_compare c) xs))"

subsection \<open>The state of the script\<close>

text \<open>
  Arrays are objects: \<^verbatim>\<open>allPosts\<close> and \<^verbatim>\<open>displayedPosts\<close> hold references, and
  \<^verbatim>\<open>sort\<close> writes the array it is called on. The store \<open>heap\<close> maps an address to the
  elements of the array there; a new array takes the next address. The posts themselves
  are values: no statement of the script assigns to a property of a post.
  The message box is hidden, or shows a text as information or as an error.
\<close>

datatype message = Hidden | Shown string bool

record state =
  heap :: "jsval list list"
  allPosts :: nat
  displayedPosts :: nat
  allTags :: "jsval list"
  currentSort :: string
  currentTag :: string
  messageBox :: message

text \<open>Lines 21-25.\<close>

definition init_state :: state where
  "init_state =
     \<lparr>heap = [Nil, Nil], allPosts = 0, displayedPosts = 1, allTags = [],
      currentSort = ''date-desc'', currentTag = ''all'', messageBox = Hidden\<rparr>"

definition corpus :: "state \<Rightarrow> jsval list" where
  "corpus s = heap s ! allPosts s"

definition displayList :: "state \<Rightarrow> jsval list" where
  "displayList s = heap s ! displayedPosts s"

definition new_array :: "jsval list \<Rightarrow> state \<Rightarrow> nat \<times> state" where
  "new_array xs s = (length (heap s), s\<lparr>heap := heap s @ [xs]\<rparr>)"

text \<open>
  Lines 30-43, \<^verbatim>\<open>showMessage\<close> and \<^verbatim>\<open>hideMessage\<close>; the flag says that the type is
  \<^verbatim>\<open>'error'\<close>.
\<close>

definition showMessage :: "string \<Rightarrow> bool \<Rightarrow> state \<Rightarrow> state" where
  [simp]: "showMessage message is_error s = s\<lparr>messageBox := Shown message is_error\<rparr>"

definition hideMessage :: "state \<Rightarrow> state" where
  [simp]: "hideMessage s = s\<lparr>messageBox := Hidden\<rparr>"

text \<open>A call completes in a state, or raises an error in the state reached by then.\<close>

datatype outcome = Done state | Thrown js_error state

subsection \<open>\<^verbatim>\<open>updatePosts\<close>\<close>

text \<open>
  Lines 188-193, the filter step: \<^verbatim>\<open>[...allPosts]\<close> for the tag \<^verbatim>\<open>'all'\<close>, else
  \<^verbatim>\<open>allPosts.filter(post => post.tags.includes(currentTag))\<close>. Both make a new array.
\<close>

definition post_has_tag :: "string \<Rightarrow> jsval \<Rightarrow> js_error + bool" where
  "post_has_tag tag post =
     (case get_prop post ''tags'' of Inl e \<Rightarrow> Inl e | Inr ts \<Rightarrow> js_includes ts tag)"

definition filter_posts :: "string \<Rightarrow> jsval list \<Rightarrow> js_error + jsval list" where
  "filter_posts tag posts =
     (if tag = ''all'' then Inr posts else array_filter (post_has_tag tag) posts)"

text \<open>Lines 195-200, the sort step; any other value of \<^verbatim>\<open>currentSort\<close> sorts nothing.\<close>

definition sort_posts :: "platform \<Rightarrow> string \<Rightarrow> jsval list \<Rightarrow> js_error + jsval list" where
  "sort_posts P order posts =
     (if order = ''date-asc'' then array_sort P (compare_asc P) posts
      else if order = ''date-desc'' then array_sort P (compare_desc P) posts
      else Inr posts)"

text \<open>
  Lines 187-203, up to the call of the renderer. A raise in the filter leaves
  \<^verbatim>\<open>displayedPosts\<close> as it was; a raise in the sort leaves it at the new, unsorted array.
\<close>

definition updatePosts :: "platform \<Rightarrow> state \<Rightarrow> outcome" where
  "updatePosts P s =
     (case filter_posts (currentTag s) (corpus s) of
        Inl e \<Rightarrow> Thrown e s
      | Inr xs \<Rightarrow>
          (let r = fst (new_array xs s);
               s1 = (snd (new_array xs s))\<lparr>displayedPosts := r\<rparr>
           in case sort_posts P (currentSort s1) (heap s1 ! r) of
                Inl e \<Rightarrow> Thrown e s1
              | Inr ys \<Rightarrow> Done (s1\<lparr>heap := (heap s1)[r := ys]\<rparr>)))"

text \<open>Lines 208-216 and 219-235: the handlers of the sort buttons and of the tag buttons.\<close>

definition sort_asc_click :: "platform \<Rightarrow> state \<Rightarrow> outcome" where
  "sort_asc_click P s = updatePosts P (s\<lparr>currentSort := ''date-asc''\<rparr>)"

definition sort_desc_click :: "platform \<Rightarrow> state \<Rightarrow> outcome" where
  "sort_desc_click P s = updatePosts P (s\<lparr>currentSort := ''date-desc''\<rparr>)"

definition tag_click :: "platform \<Rightarrow> string \<Rightarrow> state \<Rightarrow> outcome" where
  "tag_click P tag s = updatePosts P (s\<lparr>currentTag := tag\<rparr>)"

fun state_of :: "outcome \<Rightarrow> state" where
  "state_of (Done s) = s"
| "state_of (Thrown e s) = s"

fun raised :: "outcome \<Rightarrow> js_error option" where
  "raised (Done s) = None"
| "raised (Thrown e s) = Some e"

subsection \<open>\<^verbatim>\<open>fetchData\<close>\<close>

text \<open>
  \<^verbatim>\<open>allTags.add(tag)\<close>: a Set holds a primitive value once; an array or object is held by
  identity, and those that \<^verbatim>\<open>JSON.parse\<close> makes are all different objects.
\<close>

fun is_primitive :: "jsval \<Rightarrow> bool" where
  "is_primitive (JArr xs) = False"
| "is_primitive (JObj kvs) = False"
| "is_primitive v = True"

definition set_add :: "jsval list \<Rightarrow> jsval \<Rightarrow> jsval list" where
  "set_add S v = (if is_primitive v \<and> v \<in> set S then S else S @ [v])"

text \<open>
  Lines 113-115. \<^verbatim>\<open>post.tags.forEach\<close> exists on arrays only. A raise leaves in the
  Set the tags added before it.
\<close>

fun collect_tags :: "jsval list \<Rightarrow> jsval list \<Rightarrow> js_error option \<times> jsval list" where
  "collect_tags [] S = (None, S)"
| "collect_tags (post # posts) S =
     (case get_prop post ''tags'' of
        Inl e \<Rightarrow> (Some e, S)
      | Inr (JArr ts) \<Rightarrow> collect_tags posts (foldl set_add S ts)
      | Inr v \<Rightarrow> (Some TypeError, S))"

text \<open>The response of \<^verbatim>\<open>fetch\<close>: it fails, or has \<^verbatim>\<open>ok\<close>, \<^verbatim>\<open>status\<close> and a text.\<close>

datatype fetched = NetworkError | Response bool nat string

fun show_nat :: "nat \<Rightarrow> string" where
  "show_nat n =
     (if n < 10 then [char_of (48 + n)] else show_nat (n div 10) @ [char_of (48 + n mod 10)])"

definition message_of :: "platform \<Rightarrow> js_error \<Rightarrow> string" where
  "message_of P e = (case e of Error m \<Rightarrow> m | _ \<Rightarrow> error_text P e)"

definition load_failed_text :: "platform \<Rightarrow> string \<Rightarrow> js_error \<Rightarrow> string" where
  "load_failed_text P dataFile e =
     ''Error: Failed to load data. Make sure '' @ [CHR 0x27] @ dataFile @ [CHR 0x27]
       @ '' exists in the same directory. '' @ message_of P e"

text \<open>Lines 103-110: the parser is chosen by the extension of the file name.\<close>

definition parse_posts :: "platform \<Rightarrow> string \<Rightarrow> string \<Rightarrow> js_error + jsval list" where
  "parse_posts P dataFile text =
     (if ends_with dataFile ''.json''
      then (case json_parse P text of
              None \<Rightarrow> Inl SyntaxError
            | Some jsonData \<Rightarrow> Inr (parseJsonData jsonData))
      else if ends_with dataFile ''.xml'' then Inr (parseXmlData P text)
      else Inl (Error ''Unsupported file type. Please use .json or .xml.''))"

text \<open>The \<^verbatim>\<open>catch\<close> block, lines 120-123.\<close>

definition load_failed :: "platform \<Rightarrow> string \<Rightarrow> js_error \<Rightarrow> state \<Rightarrow> state" where
  "load_failed P dataFile e s = showMessage (load_failed_text P dataFile e) True s"

text \<open>
  Lines 92-124. The file name is \<^verbatim>\<open>config.dataFile\<close> (line 11) and the response is what
  \<^verbatim>\<open>fetch\<close> gave for it. \<^verbatim>\<open>allPosts\<close> is assigned before the tags are collected, and
  nothing is undone when a later statement raises: the \<^verbatim>\<open>catch\<close> block only shows the
  message.
\<close>

definition fetchData :: "platform \<Rightarrow> string \<Rightarrow> fetched \<Rightarrow> state \<Rightarrow> state" where
  "fetchData P dataFile response s0 =
     (let s = showMessage ''Loading posts...'' False s0
      in case response of
           NetworkError \<Rightarrow> load_failed P dataFile TypeError s
         | Response ok status text \<Rightarrow>
             if \<not> ok
             then load_failed P dataFile (Error (''HTTP error! Status: '' @ show_nat status)) s
             else (case parse_posts P dataFile text of
                     Inl e \<Rightarrow> load_failed P dataFile e s
                   | Inr posts \<Rightarrow>
                       (let s1 = (snd (new_array posts s))\<lparr>allPosts := fst (new_array posts s)\<rparr>
                        in case collect_tags posts (allTags s1) of
                             (Some e, tags) \<Rightarrow> load_failed P dataFile e (s1\<lparr>allTags := tags\<rparr>)
                           | (None, tags) \<Rightarrow>
                               (case updatePosts P (hideMessage (s1\<lparr>allTags := tags\<rparr>)) of
                                  Done s2 \<Rightarrow> s2
                                | Thrown e s2 \<Rightarrow> load_failed P dataFile e s2))))"

subsection \<open>Predicates on posts\<close>

text \<open>
  A post as the data model describes it has an array of tags; \<open>tags_of\<close> reads it.
  Its date is readable when \<^verbatim>\<open>new Date(post.date)\<close> does not raise, and valid when the
  time value is not \<^verbatim>\<open>NaN\<close>.
\<close>

definition has_tags_array :: "jsval \<Rightarrow> bool" where
  "has_tags_array post = (case get_prop post ''tags'' of Inr (JArr ts) \<Rightarrow> True | _ \<Rightarrow> False)"

definition tags_of :: "jsval \<Rightarrow> jsval list" where
  "tags_of post = (case get_prop post ''tags'' of Inr (JArr ts) \<Rightarrow> ts | _ \<Rightarrow> [])"

definition carries :: "string \<Rightarrow> jsval \<Rightarrow> bool" where
  "carries tag post = (JStr tag \<in> set (tags_of post))"

definition date_readable :: "platform \<Rightarrow> jsval \<Rightarrow> bool" where
  "date_readable P post = (case post_date P post of Inl e \<Rightarrow> False | Inr v \<Rightarrow> True)"

definition has_valid_date :: "platform \<Rightarrow> jsval \<Rightarrow> bool" where
  "has_valid_date P post = (case post_date P post of Inr (Some t) \<Rightarrow> True | _ \<Rightarrow> False)"

definition time_of :: "platform \<Rightarrow> jsval \<Rightarrow> int" where
  "time_of P post = (case post_date P post of Inr (Some t) \<Rightarrow> t | _ \<Rightarrow> 0)"

text \<open>A JSON value that is neither an array nor an object.\<close>

fun is_scalar :: "jsval \<Rightarrow> bool" where
  "is_scalar JNull = True"
| "is_scalar (JBool b) = True"
| "is_scalar (JNum r) = True"
| "is_scalar (JStr s) = True"
| "is_scalar v = False"

text \<open>The view of a corpus: the filter step, then the sort step.\<close>

definition view :: "platform \<Rightarrow> string \<Rightarrow> string \<Rightarrow> jsval list \<Rightarrow> js_error + jsval list" where
  "view P tag order posts =
     (case filter_posts tag posts of Inl e \<Rightarrow> Inl e | Inr xs \<Rightarrow> sort_posts P order xs)"

subsection \<open>An engine and some documents\<close>

text \<open>
  A sort as an engine implements it for a short array, after TimSort: the leading run is
  found (and reversed if it descends strictly), then each further element is inserted into
  the sorted front at the place a binary search gives. On a consistent comparator this is
  the stable sort.
\<close>

function bsearch :: "('a \<Rightarrow> 'a \<Rightarrow> int) \<Rightarrow> 'a \<Rightarrow> 'a list \<Rightarrow> nat \<Rightarrow> nat \<Rightarrow> nat" where
  "bsearch c pivot xs left right =
     (if left < right
      then (if c pivot (xs ! (left + (right - left) div 2)) < 0
            then bsearch c pivot xs left (left + (right - left) div 2)
            else bsearch c pivot xs (left + (right - left) div 2 + 1) right)
      else left)"
  by pat_completeness auto
termination
  by (relation "measure (\<lambda>(c, pivot, xs, left, right). right - left)") auto

definition binary_insert :: "('a \<Rightarrow> 'a \<Rightarrow> int) \<Rightarrow> 'a list \<Rightarrow> 'a \<Rightarrow> 'a list" where
  "binary_insert c front pivot =
     take (bsearch c pivot front 0 (length front)) front
       @ pivot # drop (bsearch c pivot front 0 (length front)) front"

fun run_length :: "('a \<Rightarrow> 'a \<Rightarrow> int) \<Rightarrow> bool \<Rightarrow> 'a \<Rightarrow> 'a list \<Rightarrow> nat" where
  "run_length c descending previous [] = 0"
| "run_length c descending previous (x # xs) =
     (if (if descending then c x previous < 0 else c x previous \<ge> 0)
      then Suc (run_length c descending x xs) else 0)"

fun run_insertion_sort :: "('a \<Rightarrow> 'a \<Rightarrow> int) \<Rightarrow> 'a list \<Rightarrow> 'a list" where
  "run_insertion_sort c (x0 # x1 # xs) =
     (let descending = (c x1 x0 < 0);
          n = 2 + run_length c descending x1 xs;
          run = take n (x0 # x1 # xs)
      in foldl (binary_insert c) (if descending then rev run else run) (drop n (x0 # x1 # xs)))"
| "run_insertion_sort c xs = xs"

text \<open>
  The texts of the examples: a JSON number, an array of two \<^verbatim>\<open>null\<close>, an object with
  tags only, a single post with a date that does not parse, an array of two posts; an XML
  document of two posts, one of none, and a text whose root element is not terminated.
\<close>

definition json_tags_only :: string where
  \<open>json_tags_only = ''{"tags":[]}''\<close>

definition json_solo :: string where
  \<open>json_solo = ''{"title":"Solo","date":"not-a-date","tags":[]}''\<close>

definition json_two_posts :: string where
  \<open>json_two_posts =
     ''[{"title":"A","date":"2024-01-01","tags":["x"]},{"title":"B","date":"2023-06-01","tags":["y"]}]''\<close>

definition xml_two_posts :: string where
  "xml_two_posts =
     ''<Posts><Post><Title>A</Title><Date>2024-01-01</Date><tags><tag>x</tag></tags></Post>''
     @ ''<Post><Title>B</Title><Date>2023-06-01</Date><tags><tag>y</tag></tags></Post></Posts>''"

definition xml_no_posts :: string where
  "xml_no_posts = ''<Posts></Posts>''"

definition xml_unterminated :: string where
  "xml_unterminated = ''<Posts><Title>A</Title>''"

definition example_json_parse :: "string \<Rightarrow> jsval option" where
  "example_json_parse text =
     (if text = ''42'' then Some (JNum 42)
      else if text = ''[null,null]'' then Some (JArr [JNull, JNull])
      else if text = json_tags_only then Some (JObj [(''tags'', JArr [])])
      else if text = json_solo
      then Some (JObj [(''title'', JStr ''Solo''), (''date'', JStr ''not-a-date''), (''tags'', JArr [])])
      else if text = json_two_posts
      then Some (JArr [JObj [(''title'', JStr ''A''), (''date'', JStr ''2024-01-01''),
                             (''tags'', JArr [JStr ''x''])],
                       JObj [(''title'', JStr ''B''), (''date'', JStr ''2023-06-01''),
                             (''tags'', JArr [JStr ''y''])]])
      else None)"

text \<open>
  A text that is not well-formed gives the error document, whose root is a
  \<^verbatim>\<open>parsererror\<close> element. Of the well-formed texts only the two above are in the table.
\<close>

definition example_dom_parse :: "string \<Rightarrow> xnode" where
  "example_dom_parse text =
     (if text = xml_two_posts
      then XElem ''Posts''
             [XElem ''Post'' [XElem ''Title'' [XText ''A''], XElem ''Date'' [XText ''2024-01-01''],
                              XElem ''tags'' [XElem ''tag'' [XText ''x'']]],
              XElem ''Post'' [XElem ''Title'' [XText ''B''], XElem ''Date'' [XText ''2023-06-01''],
                              XElem ''tags'' [XElem ''tag'' [XText ''y'']]]]
      else if text = xml_no_posts then XElem ''Posts'' []
      else XElem ''parsererror'' [XText ''XML Parsing Error''])"

text \<open>Time values of the dates used, in milliseconds; any other string does not parse.\<close>

definition example_date_parse :: "string \<Rightarrow> int option" where
  "example_date_parse s =
     (if s = ''2023-06-01'' then Some 1685577600000
      else if s = ''2024-01-01'' then Some 1704067200000
      else if s = ''2024-01-02'' then Some 1704153600000
      else if s = ''2024-01-03'' then Some 1704240000000
      else if s = ''2024-01-05'' then Some 1704412800000
      else if s = ''2024-01-06'' then Some 1704499200000
      else if s = ''2024-01-09'' then Some 1704758400000
      else None)"

definition example_browser :: platform where
  "example_browser =
     \<lparr>json_parse = example_json_parse,
      dom_parse = example_dom_parse,
      date_parse = example_date_parse,
      object_to_string = (\<lambda>v. Inr ''[object Object]''),
      sort_impl = run_insertion_sort,
      error_text = (\<lambda>e. ''error'')\<rparr>"

text \<open>The state after the document of two posts has been loaded.\<close>

definition two_posts_loaded :: state where
  "two_posts_loaded =
     fetchData example_browser ''posts.xml'' (Response True 200 xml_two_posts) init_state"

text \<open>
  Two \<^verbatim>\<open>Post\<close> elements with an image and nothing else: the image of the first has no
  \<^verbatim>\<open>src\<close>, that of the second no \<^verbatim>\<open>alt\<close>.
\<close>

definition image_without_src :: "string list \<times> xnode" where
  "image_without_src = ([''img'', ''Post''], XElem ''image'' [XElem ''alt'' [XText ''a dinosaur'']])"

definition post_without_src :: "string list \<times> xnode" where
  "post_without_src = ([], XElem ''Post'' [XElem ''img'' [snd image_without_src]])"

definition image_without_alt :: "string list \<times> xnode" where
  "image_without_alt = ([''img'', ''Post''], XElem ''image'' [XElem ''src'' [XText ''dino.png'']])"

definition post_without_alt :: "string list \<times> xnode" where
  "post_without_alt = ([], XElem ''Post'' [XElem ''img'' [snd image_without_alt]])"

text \<open>A post of the shape \<^verbatim>\<open>parseXmlData\<close> builds, with a title and a date only.\<close>

definition dated_post :: "string \<Rightarrow> string \<Rightarrow> jsval" where
  "dated_post title date =
     JObj [(''title'', JStr title), (''date'', JStr date), (''content'', JStr []),
           (''img'', JNull), (''tags'', JArr [])]"

section \<open>Properties\<close>

subsection \<open>The filter step and the view\<close>

lemma post_has_tag_array:
  "has_tags_array p \<Longrightarrow> post_has_tag tag p = Inr (carries tag p)"
  by (auto simp: has_tags_array_def post_has_tag_def carries_def tags_of_def
           split: sum.splits jsval.splits)

lemma array_filter_total:
  "(\<And>x. x \<in> set xs \<Longrightarrow> f x = Inr (g x)) \<Longrightarrow> array_filter f xs = Inr (filter g xs)"
  by (induction xs) auto

lemma filter_posts_all: "filter_posts ''all'' posts = Inr posts"
  by (simp add: filter_posts_def)

lemma filter_posts_tag:
  assumes "\<forall>p \<in> set posts. has_tags_array p" and "tag \<noteq> ''all''"
  shows "filter_posts tag posts = Inr (filter (carries tag) posts)"
  using assms by (simp add: filter_posts_def array_filter_total post_has_tag_array)

lemma filter_posts_subset:
  "filter_posts tag posts = Inr xs \<Longrightarrow> set xs \<subseteq> set posts"
proof -
  have "array_filter f ps = Inr ys \<Longrightarrow> set ys \<subseteq> set ps" for f :: "jsval \<Rightarrow> js_error + bool" and ps ys
    by (induction ps arbitrary: ys) (auto split: sum.splits if_splits)
  then show "filter_posts tag posts = Inr xs \<Longrightarrow> set xs \<subseteq> set posts"
    by (auto simp: filter_posts_def split: if_splits)
qed

lemma first_raise_None:
  assumes "\<And>a b. a \<in> set xs \<Longrightarrow> b \<in> set xs \<Longrightarrow> \<exists>v. c a b = Inr v"
  shows "first_raise c xs = None"
proof -
  have "filter (\<lambda>ab. (case c (fst ab) (snd ab) of Inl e \<Rightarrow> Some e | Inr v \<Rightarrow> None) \<noteq> None)
          (List.product xs xs) = []"
    using assms by (fastforce simp: filter_empty_conv split: sum.splits)
  then show ?thesis
    by (simp add: first_raise_def List.map_filter_def)
qed

lemma compare_readable:
  assumes "date_readable P a" and "date_readable P b"
  shows "\<exists>v. compare_asc P a b = Inr v" and "\<exists>v. compare_desc P a b = Inr v"
  using assms by (auto simp: date_readable_def compare_asc_def compare_desc_def split: sum.splits)

lemma array_sort_total:
  assumes "\<And>a b. a \<in> set xs \<Longrightarrow> b \<in> set xs \<Longrightarrow> \<exists>v. c a b = Inr v"
  shows "\<exists>ys. array_sort P c xs = Inr ys"
  using first_raise_None [of xs c, OF assms] by (simp add: array_sort_def)

lemma sort_posts_total:
  assumes "\<forall>p \<in> set xs. date_readable P p"
  shows "\<exists>ys. sort_posts P order xs = Inr ys"
  using assms by (simp add: sort_posts_def array_sort_total compare_readable)

lemma view_total:
  assumes "\<forall>p \<in> set posts. has_tags_array p \<and> date_readable P p"
  shows "\<exists>ys. view P tag order posts = Inr ys"
proof -
  obtain xs where xs: "filter_posts tag posts = Inr xs"
    using assms filter_posts_all filter_posts_tag by (cases "tag = ''all''") blast+
  then have "\<forall>p \<in> set xs. date_readable P p"
    using assms filter_posts_subset by blast
  then show ?thesis
    using xs sort_posts_total by (simp add: view_def)
qed

lemma updatePosts_Done:
  assumes "view P (currentTag s) (currentSort s) (corpus s) = Inr ys"
  shows "updatePosts P s = Done (s\<lparr>heap := heap s @ [ys], displayedPosts := length (heap s)\<rparr>)"
  using assms
  by (auto simp: updatePosts_def view_def new_array_def Let_def split: sum.splits)

lemma updatePosts_Done_iff:
  "updatePosts P s = Done s' \<longleftrightarrow>
     (\<exists>ys. view P (currentTag s) (currentSort s) (corpus s) = Inr ys
          \<and> s' = s\<lparr>heap := heap s @ [ys], displayedPosts := length (heap s)\<rparr>)"
  by (auto simp: updatePosts_def view_def new_array_def Let_def split: sum.splits)

lemma updatePosts_frame:
  "allPosts (state_of (updatePosts P s)) = allPosts s
 \<and> allTags (state_of (updatePosts P s)) = allTags s
 \<and> currentTag (state_of (updatePosts P s)) = currentTag s
 \<and> currentSort (state_of (updatePosts P s)) = currentSort s
 \<and> messageBox (state_of (updatePosts P s)) = messageBox s
 \<and> (\<forall>a < length (heap s). heap (state_of (updatePosts P s)) ! a = heap s ! a)"
  by (auto simp: updatePosts_def new_array_def Let_def nth_append split: sum.splits)

lemma updatePosts_corpus:
  "allPosts s < length (heap s) \<Longrightarrow> corpus (state_of (updatePosts P s)) = corpus s"
  using updatePosts_frame [of P s] by (simp add: corpus_def)

subsection \<open>Sorting posts whose dates are all valid\<close>

lemma valid_post_date:
  "has_valid_date P p \<Longrightarrow> post_date P p = Inr (Some (time_of P p))"
  by (auto simp: has_valid_date_def time_of_def split: sum.splits option.splits)

lemma compare_asc_valid:
  "has_valid_date P a \<Longrightarrow> has_valid_date P b \<Longrightarrow>
     compare_asc P a b = Inr (Some (time_of P a - time_of P b))"
  by (simp add: compare_asc_def valid_post_date num_sub_def)

lemma compare_desc_valid:
  "has_valid_date P a \<Longrightarrow> has_valid_date P b \<Longrightarrow>
     compare_desc P a b = Inr (Some (time_of P b - time_of P a))"
  by (simp add: compare_desc_def valid_post_date num_sub_def)

lemma consistent_by_key:
  assumes "\<And>a b. a \<in> set xs \<Longrightarrow> b \<in> set xs \<Longrightarrow> c a b = f a - f b"
  shows "consistent_comparator c xs"
  unfolding consistent_comparator_def using assms by auto

lemma consistent_all_ties:
  assumes "\<And>a b. a \<in> set xs \<Longrightarrow> b \<in> set xs \<Longrightarrow> c a b = (0::int)"
  shows "consistent_comparator c xs"
  unfolding consistent_comparator_def using assms by auto

lemma stable_sort_all_ties:
  assumes "\<And>a b. a \<in> set xs \<Longrightarrow> b \<in> set xs \<Longrightarrow> c a b = (0::int)"
  shows "stable_sort c xs = xs"
  using assms
proof (induction xs)
  case Nil
  then show ?case by (simp add: stable_sort_def)
next
  case (Cons x xs)
  have ih: "stable_sort c xs = xs" using Cons by simp
  have "insert_sorted c x xs = x # xs"
    using Cons.prems by (cases xs) simp_all
  then show ?case
    using ih by (simp add: stable_sort_def)
qed

lemma insert_sorted_insort_key:
  assumes "\<And>y. y \<in> set ys \<Longrightarrow> (c x y \<le> 0) = (f x \<le> f y)"
  shows "insert_sorted c x ys = insort_key f x ys"
  using assms by (induction ys) auto

lemma stable_sort_sort_key:
  assumes "\<And>x y. x \<in> set xs \<Longrightarrow> y \<in> set xs \<Longrightarrow> (c x y \<le> 0) = (f x \<le> f y)"
  shows "stable_sort c xs = sort_key f xs"
  using assms
proof (induction xs)
  case Nil
  then show ?case by (simp add: stable_sort_def)
next
  case (Cons x xs)
  have ih: "stable_sort c xs = sort_key f xs"
    using Cons by simp
  have "insert_sorted c x (sort_key f xs) = insort_key f x (sort_key f xs)"
    by (rule insert_sorted_insort_key) (simp add: Cons.prems)
  then show ?case
    using ih by (simp add: stable_sort_def)
qed

lemma array_sort_by_key:
  assumes r: "\<And>a b. a \<in> set xs \<Longrightarrow> b \<in> set xs \<Longrightarrow> c a b = Inr (Some (f a - f b))"
  shows "array_sort P c xs = Inr (sort_key f xs)"
proof (cases "length xs < 2")
  case True
  then have "xs = [] \<or> (\<exists>x. xs = [x])"
    by (cases xs) (auto simp: less_Suc_eq_0_disj)
  then have "sort_key f xs = xs" by auto
  with True show ?thesis by (simp add: array_sort_def)
next
  case False
  have 1: "first_raise c xs = None"
    by (rule first_raise_None) (simp add: r)
  have 2: "consistent_comparator (sort_compare c) xs"
    by (rule consistent_by_key [where f = f]) (simp add: sort_compare_def r)
  have 3: "stable_sort (sort_compare c) xs = sort_key f xs"
    by (rule stable_sort_sort_key) (simp add: sort_compare_def r)
  show ?thesis using False 1 2 3 by (simp add: array_sort_def)
qed

lemma array_sort_all_ties:
  assumes r: "\<And>a b. a \<in> set xs \<Longrightarrow> b \<in> set xs \<Longrightarrow> \<exists>v. c a b = Inr v"
    and z: "\<And>a b. a \<in> set xs \<Longrightarrow> b \<in> set xs \<Longrightarrow> sort_compare c a b = 0"
  shows "array_sort P c xs = Inr xs"
proof -
  have 1: "first_raise c xs = None"
    by (rule first_raise_None) (rule r)
  have 2: "consistent_comparator (sort_compare c) xs"
    by (rule consistent_all_ties) (rule z)
  have 3: "stable_sort (sort_compare c) xs = xs"
    by (rule stable_sort_all_ties) (rule z)
  show ?thesis using 1 2 3 by (simp add: array_sort_def)
qed

lemma compare_tie:
  assumes "date_readable P a" and "date_readable P b"
    and "has_valid_date P a \<and> has_valid_date P b \<longrightarrow> time_of P a = time_of P b"
  shows "sort_compare (compare_asc P) a b = 0" and "sort_compare (compare_desc P) a b = 0"
  using assms
  by (auto simp: sort_compare_def compare_asc_def compare_desc_def date_readable_def
        has_valid_date_def time_of_def num_sub_def split: sum.splits option.splits)

lemma sort_posts_all_ties:
  assumes "\<forall>p \<in> set posts. date_readable P p"
    and "\<forall>a \<in> set posts. \<forall>b \<in> set posts.
           has_valid_date P a \<and> has_valid_date P b \<longrightarrow> time_of P a = time_of P b"
  shows "sort_posts P order posts = Inr posts"
proof -
  have r: "\<exists>v. compare_asc P a b = Inr v" "\<exists>v. compare_desc P a b = Inr v"
    if "a \<in> set posts" "b \<in> set posts" for a b
    using that assms(1) compare_readable by blast+
  have z: "sort_compare (compare_asc P) a b = 0" "sort_compare (compare_desc P) a b = 0"
    if "a \<in> set posts" "b \<in> set posts" for a b
    using that assms compare_tie [of P a b] by blast+
  have "array_sort P (compare_asc P) posts = Inr posts"
    using r(1) z(1) by (rule array_sort_all_ties)
  moreover have "array_sort P (compare_desc P) posts = Inr posts"
    using r(2) z(2) by (rule array_sort_all_ties)
  ultimately show ?thesis by (simp add: sort_posts_def)
qed

lemma sort_posts_asc_valid:
  assumes "\<forall>p \<in> set posts. has_valid_date P p"
  shows "sort_posts P ''date-asc'' posts = Inr (sort_key (time_of P) posts)"
  using assms by (simp add: sort_posts_def array_sort_by_key compare_asc_valid)

lemma sort_posts_desc_valid:
  assumes "\<forall>p \<in> set posts. has_valid_date P p"
  shows "sort_posts P ''date-desc'' posts = Inr (sort_key (\<lambda>p. - time_of P p) posts)"
proof -
  have "array_sort P (compare_desc P) posts = Inr (sort_key (\<lambda>p. - time_of P p) posts)"
    by (rule array_sort_by_key) (simp add: compare_desc_valid assms)
  then show ?thesis by (simp add: sort_posts_def)
qed

subsection \<open>Loading\<close>

lemma get_prop_post_of_element:
  "get_prop (post_of_element e) ''title'' = Inr (JStr (text_or_empty ''Title'' e))"
  "get_prop (post_of_element e) ''date'' = Inr (JStr (text_or_empty ''Date'' e))"
  "get_prop (post_of_element e) ''content'' = Inr (JStr (text_or_empty ''Content'' e))"
  "get_prop (post_of_element e) ''tags''
     = Inr (JArr (map (\<lambda>t. JStr (textContent (snd t))) (querySelectorAll2 ''tags'' ''tag'' e)))"
  "get_prop (post_of_element e) ''img''
     = Inr (case querySelector2 ''img'' ''image'' e of
              None \<Rightarrow> JNull
            | Some i \<Rightarrow> JObj [(''src'', JStr (text_or_empty ''src'' i)),
                              (''alt'', JStr (text_or_empty ''alt'' i))])"
  by (simp_all add: post_of_element_def Let_def)

lemma post_of_element_viewable:
  "has_tags_array (post_of_element e)" "date_readable P (post_of_element e)"
  by (simp_all add: has_tags_array_def date_readable_def post_date_def get_prop_post_of_element)

lemma parseXmlData_viewable:
  "p \<in> set (parseXmlData P text) \<Longrightarrow> has_tags_array p \<and> date_readable P p"
  by (auto simp: parseXmlData_def parseXmlData_doc_def post_of_element_viewable)

lemma ends_with_iff: "ends_with s suffix \<longleftrightarrow> (\<exists>front. s = front @ suffix)"
proof
  assume "ends_with s suffix"
  then have "s = take (length s - length suffix) s @ suffix"
    by (metis append_take_drop_id ends_with_def)
  then show "\<exists>front. s = front @ suffix" ..
next
  assume "\<exists>front. s = front @ suffix"
  then show "ends_with s suffix" by (auto simp: ends_with_def)
qed

lemma xml_not_json: "ends_with f ''.xml'' \<Longrightarrow> \<not> ends_with f ''.json''"
  by (auto simp: ends_with_iff append_eq_append_conv2 append_eq_Cons_conv Cons_eq_append_conv)

lemma set_foldl_set_add: "set (foldl set_add S ts) = set S \<union> set ts"
  by (induction ts arbitrary: S) (auto simp: set_add_def)

lemma collect_tags_arrays:
  "\<forall>p \<in> set posts. has_tags_array p \<Longrightarrow>
     \<exists>S'. collect_tags posts S = (None, S') \<and> set S' = set S \<union> (\<Union>p \<in> set posts. set (tags_of p))"
proof (induction posts arbitrary: S)
  case Nil
  then show ?case by simp
next
  case (Cons p ps)
  from Cons.prems obtain ts where ts: "get_prop p ''tags'' = Inr (JArr ts)"
    by (auto simp: has_tags_array_def split: sum.splits jsval.splits)
  from Cons.IH [of "foldl set_add S ts"] Cons.prems
  obtain S' where "collect_tags ps (foldl set_add S ts) = (None, S')"
    and "set S' = set (foldl set_add S ts) \<union> (\<Union>p \<in> set ps. set (tags_of p))"
    by auto
  then show ?case
    using ts by (auto simp: set_foldl_set_add tags_of_def)
qed

lemma collect_tags_scalar: "is_scalar v \<Longrightarrow> collect_tags [v] S = (Some TypeError, S)"
  by (cases v) auto

lemma fetchData_parsed:
  assumes "parse_posts P f text = Inr posts"
  shows "fetchData P f (Response True st text) s0 =
     (case collect_tags posts (allTags s0) of
        (Some e, tags) \<Rightarrow>
          load_failed P f e
            (s0\<lparr>messageBox := Shown ''Loading posts...'' False, heap := heap s0 @ [posts],
                allPosts := length (heap s0), allTags := tags\<rparr>)
      | (None, tags) \<Rightarrow>
          (case updatePosts P
                  (s0\<lparr>heap := heap s0 @ [posts], allPosts := length (heap s0), allTags := tags,
                      messageBox := Hidden\<rparr>) of
             Done s2 \<Rightarrow> s2
           | Thrown e s2 \<Rightarrow> load_failed P f e s2))"
  using assms
  by (simp add: fetchData_def new_array_def Let_def split: prod.splits option.splits outcome.splits)

lemma load_failed_fields:
  "heap (load_failed P f e s) = heap s" "allPosts (load_failed P f e s) = allPosts s"
  "displayedPosts (load_failed P f e s) = displayedPosts s"
  "allTags (load_failed P f e s) = allTags s"
  "messageBox (load_failed P f e s) = Shown (load_failed_text P f e) True"
  by (simp_all add: load_failed_def)

lemma corpus_load_failed: "corpus (load_failed P f e s) = corpus s"
  by (simp add: corpus_def load_failed_fields)

lemma fetchData_corpus:
  assumes "parse_posts P f text = Inr posts"
  shows "corpus (fetchData P f (Response True st text) s0) = posts"
proof (cases "collect_tags posts (allTags s0)")
  case (Pair err tags)
  show ?thesis
  proof (cases err)
    case (Some e)
    with Pair show ?thesis
      by (simp add: fetchData_parsed [OF assms] corpus_load_failed) (simp add: corpus_def)
  next
    case None
    let ?s = "s0\<lparr>heap := heap s0 @ [posts], allPosts := length (heap s0), allTags := tags,
                  messageBox := Hidden\<rparr>"
    have c: "corpus (state_of (updatePosts P ?s)) = posts"
      using updatePosts_corpus [of ?s P] by (simp add: corpus_def)
    show ?thesis
    proof (cases "updatePosts P ?s")
      case (Done s2)
      with c Pair None show ?thesis by (simp add: fetchData_parsed [OF assms])
    next
      case (Thrown e s2)
      with c Pair None show ?thesis
        by (simp add: fetchData_parsed [OF assms] corpus_load_failed)
    qed
  qed
qed

lemma fetchData_viewable:
  assumes "parse_posts P f text = Inr posts"
    and "\<forall>p \<in> set posts. has_tags_array p \<and> date_readable P p"
  shows "\<exists>tags ys. collect_tags posts (allTags s0) = (None, tags)
        \<and> view P (currentTag s0) (currentSort s0) posts = Inr ys
        \<and> heap (fetchData P f (Response True st text) s0) = heap s0 @ [posts, ys]
        \<and> allPosts (fetchData P f (Response True st text) s0) = length (heap s0)
        \<and> displayedPosts (fetchData P f (Response True st text) s0) = Suc (length (heap s0))
        \<and> allTags (fetchData P f (Response True st text) s0) = tags
        \<and> messageBox (fetchData P f (Response True st text) s0) = Hidden"
proof -
  obtain tags where t: "collect_tags posts (allTags s0) = (None, tags)"
    using collect_tags_arrays assms(2) by blast
  obtain ys where v: "view P (currentTag s0) (currentSort s0) posts = Inr ys"
    using view_total assms(2) by blast
  let ?s = "s0\<lparr>heap := heap s0 @ [posts], allPosts := length (heap s0), allTags := tags,
                messageBox := Hidden\<rparr>"
  have "view P (currentTag ?s) (currentSort ?s) (corpus ?s) = Inr ys"
    using v by (simp add: corpus_def)
  from updatePosts_Done [OF this] t v show ?thesis
    by (simp add: fetchData_parsed [OF assms(1)])
qed

section \<open>The claims\<close>

text \<open>
  Claim C1, as the code has it. The sort step returns a list of fewer than two posts as it
  is, whatever their dates. When the dates of the posts entering it can all be read and all
  the valid ones among them are equal, so that every comparison is a tie (all dates
  invalid, say), it returns the list as it is under both orders: ties keep their order and
  the posts with an invalid date stay where they are. When every post entering it has a
  valid date, it returns a permutation ordered by date, ascending or descending, in which
  the posts of any one date keep the order they entered in. Nothing is stated for an
  invalid date next to two different valid dates: the comparator is then inconsistent and
  the order is the engine's.
\<close>

theorem sort_step_stable_when_consistent:
  "(length posts < 2 \<longrightarrow> sort_posts P order posts = Inr posts)
 \<and> ((\<forall>p \<in> set posts. date_readable P p)
      \<and> (\<forall>a \<in> set posts. \<forall>b \<in> set posts.
            has_valid_date P a \<and> has_valid_date P b \<longrightarrow> time_of P a = time_of P b) \<longrightarrow>
      sort_posts P order posts = Inr posts)
 \<and> ((\<forall>p \<in> set posts. has_valid_date P p) \<and> (order = ''date-asc'' \<or> order = ''date-desc'') \<longrightarrow>
      (\<exists>ys. sort_posts P order posts = Inr ys
          \<and> mset ys = mset posts
          \<and> (\<forall>t. filter (\<lambda>p. time_of P p = t) ys = filter (\<lambda>p. time_of P p = t) posts)
          \<and> (order = ''date-asc'' \<longrightarrow> sorted (map (time_of P) ys))
          \<and> (order = ''date-desc'' \<longrightarrow> sorted (map (\<lambda>p. - time_of P p) ys))))"
proof (intro conjI impI)
  assume "length posts < 2"
  then show "sort_posts P order posts = Inr posts"
    by (simp add: sort_posts_def array_sort_def)
next
  assume "(\<forall>p \<in> set posts. date_readable P p)
      \<and> (\<forall>a \<in> set posts. \<forall>b \<in> set posts.
            has_valid_date P a \<and> has_valid_date P b \<longrightarrow> time_of P a = time_of P b)"
  then show "sort_posts P order posts = Inr posts"
    using sort_posts_all_ties by blast
next
  assume a: "(\<forall>p \<in> set posts. has_valid_date P p) \<and> (order = ''date-asc'' \<or> order = ''date-desc'')"
  then have v: "\<forall>p \<in> set posts. has_valid_date P p" by simp
  show "\<exists>ys. sort_posts P order posts = Inr ys
          \<and> mset ys = mset posts
          \<and> (\<forall>t. filter (\<lambda>p. time_of P p = t) ys = filter (\<lambda>p. time_of P p = t) posts)
          \<and> (order = ''date-asc'' \<longrightarrow> sorted (map (time_of P) ys))
          \<and> (order = ''date-desc'' \<longrightarrow> sorted (map (\<lambda>p. - time_of P p) ys))"
  proof (cases "order = ''date-asc''")
    case True
    show ?thesis
      using sort_posts_asc_valid [OF v] True by (simp add: sort_key_stable)
  next
    case False
    then have d: "order = ''date-desc''" using a by simp
    have "filter (\<lambda>p. time_of P p = t) (sort_key (\<lambda>p. - time_of P p) posts)
          = filter (\<lambda>p. time_of P p = t) posts" for t
      using sort_key_stable [of "\<lambda>p. - time_of P p" "- t" posts] by simp
    then show ?thesis
      using sort_posts_desc_valid [OF v] d by simp
  qed
qed

text \<open>
  The theorem of C1 at a single post with an invalid date, at four posts of which two have
  an invalid date and two the same date, and at three posts of two dates.
\<close>

theorem sort_step_stable_when_consistent_witness:
  "length [dated_post ''S'' ''not-a-date''] < 2
 \<and> sort_posts example_browser ''date-asc'' [dated_post ''S'' ''not-a-date'']
      = Inr [dated_post ''S'' ''not-a-date'']
 \<and> list_all (date_readable example_browser)
       [dated_post ''S'' ''not-a-date'', dated_post ''A'' ''2024-01-01'',
        dated_post ''T'' [], dated_post ''C'' ''2024-01-01'']
 \<and> sort_posts example_browser ''date-asc''
       [dated_post ''S'' ''not-a-date'', dated_post ''A'' ''2024-01-01'',
        dated_post ''T'' [], dated_post ''C'' ''2024-01-01'']
      = Inr [dated_post ''S'' ''not-a-date'', dated_post ''A'' ''2024-01-01'',
             dated_post ''T'' [], dated_post ''C'' ''2024-01-01'']
 \<and> sort_posts example_browser ''date-desc''
       [dated_post ''S'' ''not-a-date'', dated_post ''A'' ''2024-01-01'',
        dated_post ''T'' [], dated_post ''C'' ''2024-01-01'']
      = Inr [dated_post ''S'' ''not-a-date'', dated_post ''A'' ''2024-01-01'',
             dated_post ''T'' [], dated_post ''C'' ''2024-01-01'']
 \<and> list_all (has_valid_date example_browser)
       [dated_post ''A'' ''2024-01-01'', dated_post ''B'' ''2023-06-01'',
        dated_post ''C'' ''2024-01-01'']
 \<and> (\<exists>ys. sort_posts example_browser ''date-desc''
             [dated_post ''A'' ''2024-01-01'', dated_post ''B'' ''2023-06-01'',
              dated_post ''C'' ''2024-01-01''] = Inr ys
        \<and> filter (\<lambda>p. time_of example_browser p = 1704067200000) ys
            = [dated_post ''A'' ''2024-01-01'', dated_post ''C'' ''2024-01-01''])"
proof -
  let ?posts = "[dated_post ''A'' ''2024-01-01'', dated_post ''B'' ''2023-06-01'',
                 dated_post ''C'' ''2024-01-01'']"
  let ?ties = "[dated_post ''S'' ''not-a-date'', dated_post ''A'' ''2024-01-01'',
                dated_post ''T'' [], dated_post ''C'' ''2024-01-01'']"
  let ?one = "[dated_post ''S'' ''not-a-date'']"
  have l: "length ?one < 2" by simp
  have v: "\<forall>p \<in> set ?posts. has_valid_date example_browser p"
    by code_simp
  have vl: "list_all (has_valid_date example_browser) ?posts"
    using v by (simp only: list_all_iff)
  have f: "filter (\<lambda>p. time_of example_browser p = 1704067200000) ?posts
           = [dated_post ''A'' ''2024-01-01'', dated_post ''C'' ''2024-01-01'']"
    by code_simp
  have one: "sort_posts example_browser ''date-asc'' ?one = Inr ?one"
    using sort_step_stable_when_consistent [of ?one example_browser "''date-asc''",
            THEN conjunct1, rule_format, OF l] .
  have t: "(\<forall>p \<in> set ?ties. date_readable example_browser p)
         \<and> (\<forall>a \<in> set ?ties. \<forall>b \<in> set ?ties.
               has_valid_date example_browser a \<and> has_valid_date example_browser b \<longrightarrow>
               time_of example_browser a = time_of example_browser b)"
    by code_simp
  then have "\<forall>p \<in> set ?ties. date_readable example_browser p" ..
  then have tl: "list_all (date_readable example_browser) ?ties"
    by (simp only: list_all_iff)
  have ta: "sort_posts example_browser ''date-asc'' ?ties = Inr ?ties"
    by (rule sort_step_stable_when_consistent [of ?ties example_browser "''date-asc''",
          THEN conjunct2, THEN conjunct1, THEN mp, OF t])
  have td: "sort_posts example_browser ''date-desc'' ?ties = Inr ?ties"
    by (rule sort_step_stable_when_consistent [of ?ties example_browser "''date-desc''",
          THEN conjunct2, THEN conjunct1, THEN mp, OF t])
  have h: "(\<forall>p \<in> set ?posts. has_valid_date example_browser p)
         \<and> (''date-desc'' = ''date-asc'' \<or> ''date-desc'' = ''date-desc'')"
    by (rule conjI [OF v]) simp
  from sort_step_stable_when_consistent [of ?posts example_browser "''date-desc''",
         THEN conjunct2, THEN conjunct2, THEN mp, OF h]
  obtain ys where s: "sort_posts example_browser ''date-desc'' ?posts = Inr ys"
    and st: "\<forall>t. filter (\<lambda>p. time_of example_browser p = t) ys
           = filter (\<lambda>p. time_of example_browser p = t) ?posts"
    by (elim exE conjE)
  from st have "filter (\<lambda>p. time_of example_browser p = 1704067200000) ys
           = filter (\<lambda>p. time_of example_browser p = 1704067200000) ?posts" ..
  then have "filter (\<lambda>p. time_of example_browser p = 1704067200000) ys
           = [dated_post ''A'' ''2024-01-01'', dated_post ''C'' ''2024-01-01'']"
    by (rule trans) (rule f)
  with s have ex: "\<exists>ys. sort_posts example_browser ''date-desc'' ?posts = Inr ys
      \<and> filter (\<lambda>p. time_of example_browser p = 1704067200000) ys
            = [dated_post ''A'' ''2024-01-01'', dated_post ''C'' ''2024-01-01'']"
    by (intro exI conjI)
  show ?thesis
    by (intro conjI l one tl ta td vl ex)
qed

text \<open>
  Claim C1 as stated fails. Eight posts, the fifth with an invalid date, \<open>A\<close> and \<open>B\<close> with
  the same date and \<open>A\<close> first: sorted ascending, \<open>B\<close> comes before \<open>A\<close>; sorted
  descending, the post with the invalid date has moved from the fifth place to the end.
\<close>

theorem sort_step_invalid_date_counterexample:
  "sort_posts example_browser ''date-asc''
     [dated_post ''p1'' ''2024-01-01'', dated_post ''p2'' ''2024-01-02'',
      dated_post ''p3'' ''2024-01-03'', dated_post ''p9'' ''2024-01-09'',
      dated_post ''inv'' ''not-a-date'', dated_post ''A'' ''2024-01-05'',
      dated_post ''p6'' ''2024-01-06'', dated_post ''B'' ''2024-01-05'']
   = Inr [dated_post ''p1'' ''2024-01-01'', dated_post ''p2'' ''2024-01-02'',
      dated_post ''p3'' ''2024-01-03'', dated_post ''B'' ''2024-01-05'',
      dated_post ''p9'' ''2024-01-09'', dated_post ''inv'' ''not-a-date'',
      dated_post ''A'' ''2024-01-05'', dated_post ''p6'' ''2024-01-06'']
 \<and> sort_posts example_browser ''date-desc''
     [dated_post ''p1'' ''2024-01-01'', dated_post ''p2'' ''2024-01-02'',
      dated_post ''p3'' ''2024-01-03'', dated_post ''p9'' ''2024-01-09'',
      dated_post ''inv'' ''not-a-date'', dated_post ''A'' ''2024-01-05'',
      dated_post ''p6'' ''2024-01-06'', dated_post ''B'' ''2024-01-05'']
   = Inr [dated_post ''p9'' ''2024-01-09'', dated_post ''p6'' ''2024-01-06'',
      dated_post ''A'' ''2024-01-05'', dated_post ''B'' ''2024-01-05'',
      dated_post ''p3'' ''2024-01-03'', dated_post ''p2'' ''2024-01-02'',
      dated_post ''p1'' ''2024-01-01'', dated_post ''inv'' ''not-a-date'']"
  by code_simp

text \<open>
  Claim C2, as the code has it. A load from a file named \<^verbatim>\<open>.xml\<close> whose fetch succeeded
  reports no error for any text: the message box ends hidden and the corpus holds one post
  for each \<^verbatim>\<open>Post\<close> element of the document the parser returned. When that document has
  no such element, as the error document of a text that is not well-formed, the corpus, the
  tags and the displayed list are empty.
\<close>

theorem xml_load_reports_nothing:
  assumes "ends_with dataFile ''.xml''"
  shows "messageBox (fetchData P dataFile (Response True status text) init_state) = Hidden
       \<and> corpus (fetchData P dataFile (Response True status text) init_state)
           = parseXmlData_doc (dom_parse P text)
       \<and> ((\<forall>d \<in> set (elements [] (dom_parse P text)). xname (snd d) \<noteq> ''Post'') \<longrightarrow>
             corpus (fetchData P dataFile (Response True status text) init_state) = []
           \<and> allTags (fetchData P dataFile (Response True status text) init_state) = []
           \<and> displayList (fetchData P dataFile (Response True status text) init_state) = [])"
proof -
  let ?s = "fetchData P dataFile (Response True status text) init_state"
  let ?posts = "parseXmlData P text"
  have p: "parse_posts P dataFile text = Inr ?posts"
    using assms xml_not_json by (simp add: parse_posts_def)
  have w: "\<forall>p \<in> set ?posts. has_tags_array p \<and> date_readable P p"
    using parseXmlData_viewable by blast
  from fetchData_viewable [OF p w, of init_state status]
  obtain tags ys where t: "collect_tags ?posts (allTags init_state) = (None, tags)"
    and v: "view P (currentTag init_state) (currentSort init_state) ?posts = Inr ys"
    and h: "heap ?s = heap init_state @ [?posts, ys]"
    and d: "displayedPosts ?s = Suc (length (heap init_state))"
    and a: "allTags ?s = tags" and m: "messageBox ?s = Hidden"
    by blast
  have c: "corpus ?s = parseXmlData_doc (dom_parse P text)"
    using fetchData_corpus [OF p] by (simp add: parseXmlData_def)
  have e: "corpus ?s = [] \<and> allTags ?s = [] \<and> displayList ?s = []"
    if "\<forall>d \<in> set (elements [] (dom_parse P text)). xname (snd d) \<noteq> ''Post''"
  proof -
    have n: "?posts = []"
      using that by (simp add: parseXmlData_def parseXmlData_doc_def filter_empty_conv)
    have "tags = []" using t n by (simp add: init_state_def)
    moreover have "ys = []"
      using v n by (simp add: view_def init_state_def filter_posts_def sort_posts_def array_sort_def)
    moreover have "displayList ?s = ys"
      using h d by (simp add: displayList_def init_state_def)
    ultimately show ?thesis using c n a by (simp add: parseXmlData_def)
  qed
  from m c e show ?thesis by blast
qed

text \<open>The theorem of C2 at the document without posts.\<close>

theorem xml_load_reports_nothing_witness:
  "ends_with ''posts.xml'' ''.xml''
 \<and> elements [] (dom_parse example_browser xml_no_posts) = [([], XElem ''Posts'' [])]
 \<and> messageBox (fetchData example_browser ''posts.xml'' (Response True 200 xml_no_posts) init_state)
     = Hidden
 \<and> corpus (fetchData example_browser ''posts.xml'' (Response True 200 xml_no_posts) init_state) = []
 \<and> allTags (fetchData example_browser ''posts.xml'' (Response True 200 xml_no_posts) init_state) = []
 \<and> displayList (fetchData example_browser ''posts.xml'' (Response True 200 xml_no_posts) init_state)
     = []"
proof -
  have e: "ends_with ''posts.xml'' ''.xml''" by (simp add: ends_with_def)
  have n: "\<forall>d \<in> set (elements [] (dom_parse example_browser xml_no_posts)).
             xname (snd d) \<noteq> ''Post''"
    by (simp add: example_browser_def example_dom_parse_def xml_no_posts_def xml_two_posts_def)
  have d: "elements [] (dom_parse example_browser xml_no_posts) = [([], XElem ''Posts'' [])]"
    by code_simp
  show ?thesis
    using xml_load_reports_nothing [OF e, of example_browser 200 xml_no_posts] e n d by blast
qed

text \<open>
  Claim C2 as stated fails: for the text with the unterminated element no error is shown,
  and the load ends in the very state it ends in for the well-formed document without posts.
\<close>

theorem malformed_xml_counterexample:
  "messageBox (fetchData example_browser ''posts.xml'' (Response True 200 xml_unterminated)
      init_state) = Hidden
 \<and> fetchData example_browser ''posts.xml'' (Response True 200 xml_unterminated) init_state
     = fetchData example_browser ''posts.xml'' (Response True 200 xml_no_posts) init_state"
  by code_simp

text \<open>
  Claim C3, as the code has it. A text that parses as a JSON number, string, boolean or
  \<^verbatim>\<open>null\<close>, loaded from a file named \<^verbatim>\<open>.json\<close>, is wrapped: the corpus is the
  one-element sequence holding the value. Reading the tags of that element then raises
  TypeError, so the load shows an error, and the tags and the displayed list stay empty.
\<close>

theorem json_scalar_is_wrapped:
  assumes "ends_with dataFile ''.json''" and "json_parse P text = Some v" and "is_scalar v"
  shows "corpus (fetchData P dataFile (Response True status text) init_state) = [v]
       \<and> messageBox (fetchData P dataFile (Response True status text) init_state)
           = Shown (load_failed_text P dataFile TypeError) True
       \<and> allTags (fetchData P dataFile (Response True status text) init_state) = []
       \<and> displayList (fetchData P dataFile (Response True status text) init_state) = []"
proof -
  have w: "parseJsonData v = [v]"
    using assms(3) by (cases v) simp_all
  have p: "parse_posts P dataFile text = Inr [v]"
    using assms(1,2) w by (simp add: parse_posts_def)
  have c: "collect_tags [v] (allTags init_state) = (Some TypeError, [])"
    using collect_tags_scalar [OF assms(3)] by (simp add: init_state_def)
  show ?thesis
    using c fetchData_corpus [OF p, of status init_state]
    by (simp add: fetchData_parsed [OF p] load_failed_fields displayList_def)
       (simp add: init_state_def)
qed

text \<open>The theorem of C3 at the text \<^verbatim>\<open>42\<close>.\<close>

theorem json_scalar_is_wrapped_witness:
  "ends_with ''posts.json'' ''.json''
 \<and> json_parse example_browser ''42'' = Some (JNum 42)
 \<and> is_scalar (JNum 42)
 \<and> messageBox (fetchData example_browser ''posts.json'' (Response True 200 ''42'') init_state)
     = Shown (load_failed_text example_browser ''posts.json'' TypeError) True
 \<and> allTags (fetchData example_browser ''posts.json'' (Response True 200 ''42'') init_state) = []
 \<and> displayList (fetchData example_browser ''posts.json'' (Response True 200 ''42'') init_state)
     = []"
proof -
  have e: "ends_with ''posts.json'' ''.json''" by (simp add: ends_with_def)
  have j: "json_parse example_browser ''42'' = Some (JNum 42)" by code_simp
  have s: "is_scalar (JNum 42)" by simp
  show ?thesis
    using json_scalar_is_wrapped [OF e j s, of 200] e j s by blast
qed

text \<open>Claim C3 as stated fails: after the load of \<^verbatim>\<open>42\<close> the corpus is not empty.\<close>

theorem json_scalar_counterexample:
  "corpus (fetchData example_browser ''posts.json'' (Response True 200 ''42'') init_state)
     = [JNum 42]"
  by code_simp

text \<open>
  Claim C4, as the code has it. Every post the XML parser builds has a string title, a
  string content, an array of string tags and an image that is \<^verbatim>\<open>null\<close> or has a
  string \<^verbatim>\<open>src\<close> and a string \<^verbatim>\<open>alt\<close>; a title, a content, a \<^verbatim>\<open>src\<close> or an
  \<^verbatim>\<open>alt\<close> that the element lacks is the empty string, and the tags are empty when there is
  none. The JSON parser applies no default: a post object is taken as it is.
\<close>

theorem xml_posts_have_defaults:
  "(\<forall>p \<in> set (parseXmlData P text).
      (\<exists>t. get_prop p ''title'' = Inr (JStr t))
    \<and> (\<exists>c. get_prop p ''content'' = Inr (JStr c))
    \<and> (\<exists>ts. get_prop p ''tags'' = Inr (JArr (map JStr ts)))
    \<and> (get_prop p ''img'' = Inr JNull
        \<or> (\<exists>src alt. get_prop p ''img'' = Inr (JObj [(''src'', JStr src), (''alt'', JStr alt)]))))
 \<and> (querySelector ''Title'' e = None \<longrightarrow>
       get_prop (post_of_element e) ''title'' = Inr (JStr []))
 \<and> (querySelector ''Content'' e = None \<longrightarrow>
       get_prop (post_of_element e) ''content'' = Inr (JStr []))
 \<and> (querySelectorAll2 ''tags'' ''tag'' e = [] \<longrightarrow>
       get_prop (post_of_element e) ''tags'' = Inr (JArr []))
 \<and> (querySelector2 ''img'' ''image'' e = Some i \<and> querySelector ''src'' i = None \<longrightarrow>
       get_prop (post_of_element e) ''img''
         = Inr (JObj [(''src'', JStr []), (''alt'', JStr (text_or_empty ''alt'' i))]))
 \<and> (querySelector2 ''img'' ''image'' e = Some i \<and> querySelector ''alt'' i = None \<longrightarrow>
       get_prop (post_of_element e) ''img''
         = Inr (JObj [(''src'', JStr (text_or_empty ''src'' i)), (''alt'', JStr [])]))
 \<and> parseJsonData (JObj kvs) = [JObj kvs]"
proof -
  have shape: "(\<exists>t. get_prop (post_of_element d) ''title'' = Inr (JStr t))
    \<and> (\<exists>c. get_prop (post_of_element d) ''content'' = Inr (JStr c))
    \<and> (\<exists>ts. get_prop (post_of_element d) ''tags'' = Inr (JArr (map JStr ts)))
    \<and> (get_prop (post_of_element d) ''img'' = Inr JNull
        \<or> (\<exists>src alt. get_prop (post_of_element d) ''img''
              = Inr (JObj [(''src'', JStr src), (''alt'', JStr alt)])))" for d
  proof -
    have "map (\<lambda>t. JStr (textContent (snd t))) (querySelectorAll2 ''tags'' ''tag'' d)
          = map JStr (map (\<lambda>t. textContent (snd t)) (querySelectorAll2 ''tags'' ''tag'' d))"
      by simp
    then have "\<exists>ts. get_prop (post_of_element d) ''tags'' = Inr (JArr (map JStr ts))"
      unfolding get_prop_post_of_element by blast
    then show ?thesis
      by (cases "querySelector2 ''img'' ''image'' d") (simp_all add: get_prop_post_of_element)
  qed
  have all: "\<forall>p \<in> set (parseXmlData P text).
      (\<exists>t. get_prop p ''title'' = Inr (JStr t))
    \<and> (\<exists>c. get_prop p ''content'' = Inr (JStr c))
    \<and> (\<exists>ts. get_prop p ''tags'' = Inr (JArr (map JStr ts)))
    \<and> (get_prop p ''img'' = Inr JNull
        \<or> (\<exists>src alt. get_prop p ''img'' = Inr (JObj [(''src'', JStr src), (''alt'', JStr alt)])))"
  proof
    fix p assume "p \<in> set (parseXmlData P text)"
    then obtain d where "p = post_of_element d"
      by (auto simp: parseXmlData_def parseXmlData_doc_def)
    then show "(\<exists>t. get_prop p ''title'' = Inr (JStr t))
    \<and> (\<exists>c. get_prop p ''content'' = Inr (JStr c))
    \<and> (\<exists>ts. get_prop p ''tags'' = Inr (JArr (map JStr ts)))
    \<and> (get_prop p ''img'' = Inr JNull
        \<or> (\<exists>src alt. get_prop p ''img'' = Inr (JObj [(''src'', JStr src), (''alt'', JStr alt)])))"
      using shape [of d] by simp
  qed
  show ?thesis
    by (intro conjI all impI) (simp_all add: get_prop_post_of_element text_or_empty_def)
qed

text \<open>
  The theorem of C4 at the first post of the document of two posts, and at the two
  elements whose image lacks a child.
\<close>

theorem xml_posts_have_defaults_witness:
  "JObj [(''title'', JStr ''A''), (''date'', JStr ''2024-01-01''), (''content'', JStr []),
         (''img'', JNull), (''tags'', JArr [JStr ''x''])]
     \<in> set (parseXmlData example_browser xml_two_posts)
 \<and> querySelector ''Title'' post_without_src = None
 \<and> querySelector ''Content'' post_without_src = None
 \<and> querySelectorAll2 ''tags'' ''tag'' post_without_src = []
 \<and> querySelector2 ''img'' ''image'' post_without_src = Some image_without_src
 \<and> querySelector ''src'' image_without_src = None
 \<and> querySelector2 ''img'' ''image'' post_without_alt = Some image_without_alt
 \<and> querySelector ''alt'' image_without_alt = None
 \<and> get_prop (post_of_element post_without_src) ''title'' = Inr (JStr [])
 \<and> get_prop (post_of_element post_without_src) ''content'' = Inr (JStr [])
 \<and> get_prop (post_of_element post_without_src) ''tags'' = Inr (JArr [])
 \<and> get_prop (post_of_element post_without_src) ''img''
     = Inr (JObj [(''src'', JStr []), (''alt'', JStr (text_or_empty ''alt'' image_without_src))])
 \<and> get_prop (post_of_element post_without_alt) ''img''
     = Inr (JObj [(''src'', JStr (text_or_empty ''src'' image_without_alt)), (''alt'', JStr [])])
 \<and> (\<exists>ts. get_prop (JObj [(''title'', JStr ''A''), (''date'', JStr ''2024-01-01''),
                           (''content'', JStr []), (''img'', JNull),
                           (''tags'', JArr [JStr ''x''])]) ''tags''
          = Inr (JArr (map JStr ts)))"
proof -
  let ?A = "JObj [(''title'', JStr ''A''), (''date'', JStr ''2024-01-01''), (''content'', JStr []),
                  (''img'', JNull), (''tags'', JArr [JStr ''x''])]"
  have m: "?A \<in> set (parseXmlData example_browser xml_two_posts)" by code_simp
  have h1: "querySelector ''Title'' post_without_src = None" by code_simp
  have h2: "querySelector ''Content'' post_without_src = None" by code_simp
  have h3: "querySelectorAll2 ''tags'' ''tag'' post_without_src = []" by code_simp
  have h4: "querySelector2 ''img'' ''image'' post_without_src = Some image_without_src"
    by code_simp
  have h5: "querySelector ''src'' image_without_src = None" by code_simp
  have h6: "querySelector2 ''img'' ''image'' post_without_alt = Some image_without_alt"
    by code_simp
  have h7: "querySelector ''alt'' image_without_alt = None" by code_simp
  note T1 = xml_posts_have_defaults
    [of example_browser xml_two_posts post_without_src image_without_src "[]"]
  note T2 = xml_posts_have_defaults
    [of example_browser xml_two_posts post_without_alt image_without_alt "[]"]
  from T1 have "\<forall>p \<in> set (parseXmlData example_browser xml_two_posts).
      (\<exists>t. get_prop p ''title'' = Inr (JStr t))
    \<and> (\<exists>c. get_prop p ''content'' = Inr (JStr c))
    \<and> (\<exists>ts. get_prop p ''tags'' = Inr (JArr (map JStr ts)))
    \<and> (get_prop p ''img'' = Inr JNull
        \<or> (\<exists>src alt. get_prop p ''img'' = Inr (JObj [(''src'', JStr src), (''alt'', JStr alt)])))"
    by (rule conjunct1)
  from this m have "(\<exists>t. get_prop ?A ''title'' = Inr (JStr t))
    \<and> (\<exists>c. get_prop ?A ''content'' = Inr (JStr c))
    \<and> (\<exists>ts. get_prop ?A ''tags'' = Inr (JArr (map JStr ts)))
    \<and> (get_prop ?A ''img'' = Inr JNull
        \<or> (\<exists>src alt. get_prop ?A ''img'' = Inr (JObj [(''src'', JStr src), (''alt'', JStr alt)])))"
    by (rule bspec)
  then have a: "\<exists>ts. get_prop ?A ''tags'' = Inr (JArr (map JStr ts))"
    by (elim conjE)
  have b1: "get_prop (post_of_element post_without_src) ''title'' = Inr (JStr [])"
    using T1 h1 by (elim conjE) (erule mp)
  have b2: "get_prop (post_of_element post_without_src) ''content'' = Inr (JStr [])"
    using T1 h2 by (elim conjE) (erule (1) mp [rotated -1])
  have b3: "get_prop (post_of_element post_without_src) ''tags'' = Inr (JArr [])"
    using T1 h3 by (elim conjE) (erule (1) mp [rotated -1])
  have b4: "get_prop (post_of_element post_without_src) ''img''
     = Inr (JObj [(''src'', JStr []), (''alt'', JStr (text_or_empty ''alt'' image_without_src))])"
    using T1 h4 h5 by blast
  have b5: "get_prop (post_of_element post_without_alt) ''img''
     = Inr (JObj [(''src'', JStr (text_or_empty ''src'' image_without_alt)), (''alt'', JStr [])])"
    using T2 h6 h7 by blast
  show ?thesis
    by (intro conjI m h1 h2 h3 h4 h5 h6 h7 b1 b2 b3 b4 b5 a)
qed

text \<open>
  Claim C4 as stated fails: the JSON object with tags only loads without an error, and the
  post in the corpus has neither a title nor a content.
\<close>

theorem json_post_without_title_counterexample:
  "messageBox (fetchData example_browser ''posts.json'' (Response True 200 json_tags_only)
      init_state) = Hidden
 \<and> corpus (fetchData example_browser ''posts.json'' (Response True 200 json_tags_only) init_state)
     = [JObj [(''tags'', JArr [])]]
 \<and> get_prop (JObj [(''tags'', JArr [])]) ''title'' = Inr JUndefined
 \<and> get_prop (JObj [(''tags'', JArr [])]) ''content'' = Inr JUndefined"
  by code_simp

text \<open>
  Claim C5, as the code has it. When every post of the corpus has an array of tags and a
  date that can be read, \<^verbatim>\<open>updatePosts\<close> completes for every tag and every sort order.
  Every post the XML parser builds is such a post, and so is every post whose date is
  absent or a primitive value.
\<close>

theorem updatePosts_total_on_posts:
  "((\<forall>p \<in> set (corpus s). has_tags_array p \<and> date_readable P p) \<longrightarrow>
      (\<exists>s'. updatePosts P s = Done s'))
 \<and> (\<forall>p \<in> set (parseXmlData P text). has_tags_array p \<and> date_readable P p)
 \<and> (get_prop post ''date'' = Inr v \<and> is_primitive v \<longrightarrow> date_readable P post)"
proof (intro conjI impI)
  assume "\<forall>p \<in> set (corpus s). has_tags_array p \<and> date_readable P p"
  from view_total [OF this] obtain ys
    where "view P (currentTag s) (currentSort s) (corpus s) = Inr ys" by blast
  from updatePosts_Done [OF this] show "\<exists>s'. updatePosts P s = Done s'" ..
next
  show "\<forall>p \<in> set (parseXmlData P text). has_tags_array p \<and> date_readable P p"
    using parseXmlData_viewable by blast
next
  assume "get_prop post ''date'' = Inr v \<and> is_primitive v"
  then show "date_readable P post"
    by (cases v) (simp_all add: date_readable_def post_date_def)
qed

text \<open>The theorem of C5 at the loaded document of two posts, and at a post with a date that does not parse.\<close>

theorem updatePosts_total_on_posts_witness:
  "list_all has_tags_array (corpus two_posts_loaded)
 \<and> list_all (date_readable example_browser) (corpus two_posts_loaded)
 \<and> (\<exists>s'. updatePosts example_browser two_posts_loaded = Done s')
 \<and> get_prop (dated_post ''Solo'' ''not-a-date'') ''date'' = Inr (JStr ''not-a-date'')
 \<and> is_primitive (JStr ''not-a-date'')
 \<and> date_readable example_browser (dated_post ''Solo'' ''not-a-date'')"
proof -
  have h: "\<forall>p \<in> set (corpus two_posts_loaded). has_tags_array p \<and> date_readable example_browser p"
    by code_simp
  have g: "get_prop (dated_post ''Solo'' ''not-a-date'') ''date'' = Inr (JStr ''not-a-date'')
           \<and> is_primitive (JStr ''not-a-date'')"
    by code_simp
  note T = updatePosts_total_on_posts
    [of two_posts_loaded example_browser xml_two_posts "dated_post ''Solo'' ''not-a-date''"
        "JStr ''not-a-date''"]
  have 1: "\<exists>s'. updatePosts example_browser two_posts_loaded = Done s'"
    by (rule T [THEN conjunct1, THEN mp, OF h])
  have 2: "date_readable example_browser (dated_post ''Solo'' ''not-a-date'')"
    by (rule T [THEN conjunct2, THEN conjunct2, THEN mp, OF g])
  have hl: "list_all has_tags_array (corpus two_posts_loaded)"
    "list_all (date_readable example_browser) (corpus two_posts_loaded)"
    using h by (simp_all only: list_all_iff) blast+
  show ?thesis
    using hl 1 g 2 by (intro conjI) (elim conjE, assumption)+
qed

text \<open>
  Claim C5 as stated fails: \<^verbatim>\<open>parseJsonData\<close> returns the array of two \<^verbatim>\<open>null\<close>, it
  becomes the corpus, and a click on the ascending sort raises TypeError in the comparator;
  and the filter raises TypeError on a post object that has no tags.
\<close>

theorem null_posts_counterexample:
  "parseJsonData (JArr [JNull, JNull]) = [JNull, JNull]
 \<and> corpus (fetchData example_browser ''posts.json'' (Response True 200 ''[null,null]'') init_state)
     = [JNull, JNull]
 \<and> raised (sort_asc_click example_browser
      (fetchData example_browser ''posts.json'' (Response True 200 ''[null,null]'') init_state))
     = Some TypeError
 \<and> view example_browser ''x'' ''date-desc'' (parseJsonData (JObj [(''title'', JStr ''Solo'')]))
     = Inl TypeError"
  by code_simp

text \<open>
  Claim C6. On posts that have an array of tags, the filter step returns all posts for the
  tag \<^verbatim>\<open>'all'\<close>, and for any other tag exactly the posts whose tags contain that string,
  in their order; each of them carries the tag; and when no post carries it the result is
  empty, and \<^verbatim>\<open>updatePosts\<close> completes with an empty displayed list.
\<close>

theorem filter_step_spec:
  assumes "\<forall>p \<in> set posts. has_tags_array p"
  shows "filter_posts ''all'' posts = Inr posts
       \<and> (tag \<noteq> ''all'' \<longrightarrow>
            filter_posts tag posts = Inr (filter (carries tag) posts)
          \<and> (\<forall>p \<in> set (filter (carries tag) posts). carries tag p)
          \<and> ((\<forall>p \<in> set posts. \<not> carries tag p) \<longrightarrow>
                filter_posts tag posts = Inr []
              \<and> (corpus s = posts \<and> currentTag s = tag \<longrightarrow>
                    (\<exists>s'. updatePosts P s = Done s' \<and> displayList s' = []))))"
proof (intro conjI impI)
  show "filter_posts ''all'' posts = Inr posts" by (rule filter_posts_all)
next
  assume "tag \<noteq> ''all''"
  then show "filter_posts tag posts = Inr (filter (carries tag) posts)"
    using assms by (simp add: filter_posts_tag)
next
  show "\<forall>p \<in> set (filter (carries tag) posts). carries tag p" by simp
next
  assume "tag \<noteq> ''all''" and "\<forall>p \<in> set posts. \<not> carries tag p"
  then show "filter_posts tag posts = Inr []"
    using assms by (simp add: filter_posts_tag filter_empty_conv)
next
  assume t: "tag \<noteq> ''all''" and n: "\<forall>p \<in> set posts. \<not> carries tag p"
    and s: "corpus s = posts \<and> currentTag s = tag"
  have "filter_posts tag posts = Inr []"
    using t n assms by (simp add: filter_posts_tag filter_empty_conv)
  then have "view P (currentTag s) (currentSort s) (corpus s) = Inr []"
    using s by (simp add: view_def sort_posts_def array_sort_def)
  from updatePosts_Done [OF this]
  show "\<exists>s'. updatePosts P s = Done s' \<and> displayList s' = []"
    by (simp add: displayList_def)
qed

text \<open>
  The theorem of C6 at three posts: the tag \<^verbatim>\<open>y\<close> is on one of them (the tag \<^verbatim>\<open>Y\<close>
  does not count), the tag \<^verbatim>\<open>z\<close> on none.
\<close>

theorem filter_step_spec_witness:
  "list_all has_tags_array
     [JObj [(''title'', JStr ''A''), (''tags'', JArr [JStr ''x''])],
      JObj [(''title'', JStr ''B''), (''tags'', JArr [JStr ''y'', JStr ''Y''])],
      JObj [(''title'', JStr ''C''), (''tags'', JArr [JStr ''Y''])]]
 \<and> filter_posts ''y''
     [JObj [(''title'', JStr ''A''), (''tags'', JArr [JStr ''x''])],
      JObj [(''title'', JStr ''B''), (''tags'', JArr [JStr ''y'', JStr ''Y''])],
      JObj [(''title'', JStr ''C''), (''tags'', JArr [JStr ''Y''])]]
   = Inr [JObj [(''title'', JStr ''B''), (''tags'', JArr [JStr ''y'', JStr ''Y''])]]
 \<and> filter_posts ''z''
     [JObj [(''title'', JStr ''A''), (''tags'', JArr [JStr ''x''])],
      JObj [(''title'', JStr ''B''), (''tags'', JArr [JStr ''y'', JStr ''Y''])],
      JObj [(''title'', JStr ''C''), (''tags'', JArr [JStr ''Y''])]]
   = Inr []"
proof -
  let ?posts = "[JObj [(''title'', JStr ''A''), (''tags'', JArr [JStr ''x''])],
      JObj [(''title'', JStr ''B''), (''tags'', JArr [JStr ''y'', JStr ''Y''])],
      JObj [(''title'', JStr ''C''), (''tags'', JArr [JStr ''Y''])]]"
  have h: "\<forall>p \<in> set ?posts. has_tags_array p"
    by (simp add: has_tags_array_def)
  have y: "filter (carries ''y'') ?posts
           = [JObj [(''title'', JStr ''B''), (''tags'', JArr [JStr ''y'', JStr ''Y''])]]"
    by (simp add: carries_def tags_of_def)
  have z: "\<forall>p \<in> set ?posts. \<not> carries ''z'' p"
    by (simp add: carries_def tags_of_def)
  have ny: "''y'' \<noteq> ''all''" and nz: "''z'' \<noteq> ''all''" by simp_all
  have "filter_posts ''y'' ?posts = Inr (filter (carries ''y'') ?posts)"
    by (rule filter_step_spec [OF h, of "''y''", THEN conjunct2, THEN mp, OF ny, THEN conjunct1])
  then have 1: "filter_posts ''y'' ?posts
           = Inr [JObj [(''title'', JStr ''B''), (''tags'', JArr [JStr ''y'', JStr ''Y''])]]"
    by (simp only: y)
  have 2: "filter_posts ''z'' ?posts = Inr []"
    by (rule filter_step_spec [OF h, of "''z''", THEN conjunct2, THEN mp, OF nz,
          THEN conjunct2, THEN conjunct2, THEN mp, OF z, THEN conjunct1])
  have hl: "list_all has_tags_array ?posts"
    using h by (simp only: list_all_iff)
  show ?thesis by (intro conjI hl 1 2)
qed

text \<open>
  Claim C7. After a load from the initial state, when every post of the corpus has an array
  of tags, the set of \<^verbatim>\<open>allTags\<close> is the union of the tags of the posts; an empty corpus
  gives no tags; and \<^verbatim>\<open>updatePosts\<close> and the handlers of the tag and sort buttons leave
  \<^verbatim>\<open>allTags\<close> as it is.
\<close>

theorem tag_set_is_union:
  "((\<forall>p \<in> set (corpus (fetchData P dataFile response init_state)). has_tags_array p) \<longrightarrow>
      set (allTags (fetchData P dataFile response init_state))
        = (\<Union>p \<in> set (corpus (fetchData P dataFile response init_state)). set (tags_of p)))
 \<and> (corpus (fetchData P dataFile response init_state) = [] \<longrightarrow>
      allTags (fetchData P dataFile response init_state) = [])
 \<and> allTags (state_of (updatePosts P s)) = allTags s
 \<and> allTags (state_of (tag_click P tag s)) = allTags s
 \<and> allTags (state_of (sort_asc_click P s)) = allTags s
 \<and> allTags (state_of (sort_desc_click P s)) = allTags s"
proof -
  let ?s = "fetchData P dataFile response init_state"
  have init: "corpus init_state = []" "allTags init_state = []"
    by (simp_all add: corpus_def init_state_def)
  have failed: "corpus (load_failed P dataFile e (init_state\<lparr>messageBox := m\<rparr>)) = []
              \<and> allTags (load_failed P dataFile e (init_state\<lparr>messageBox := m\<rparr>)) = []" for e m
    by (simp add: corpus_def load_failed_def init_state_def)
  have u: "set (allTags ?s) = (\<Union>p \<in> set (corpus ?s). set (tags_of p))"
    if w: "\<forall>p \<in> set (corpus ?s). has_tags_array p"
  proof (cases "\<exists>st body posts. response = Response True st body
                  \<and> parse_posts P dataFile body = Inr posts")
    case True
    then obtain st body posts where r: "response = Response True st body"
      and p: "parse_posts P dataFile body = Inr posts" by blast
    have c: "corpus ?s = posts" using r fetchData_corpus [OF p] by simp
    with w have "\<forall>p \<in> set posts. has_tags_array p" by simp
    from collect_tags_arrays [OF this, of "allTags init_state"]
    obtain S' where t: "collect_tags posts (allTags init_state) = (None, S')"
      and S': "set S' = (\<Union>p \<in> set posts. set (tags_of p))"
      by (auto simp: init)
    let ?u = "init_state\<lparr>heap := heap init_state @ [posts], allPosts := length (heap init_state),
                          allTags := S', messageBox := Hidden\<rparr>"
    have "allTags (state_of (updatePosts P ?u)) = S'"
      using updatePosts_frame [of P ?u] by simp
    then have "allTags ?s = S'"
      using r t by (cases "updatePosts P ?u")
        (simp_all add: fetchData_parsed [OF p] load_failed_fields)
    with S' c show ?thesis by simp
  next
    case False
    then have "corpus ?s = [] \<and> allTags ?s = []"
      using failed
      by (cases response) (auto simp: fetchData_def Let_def split: sum.splits)
    then show ?thesis by simp
  qed
  have e: "allTags ?s = []" if "corpus ?s = []"
    using u that by simp
  have f: "allTags (state_of (updatePosts P x)) = allTags x" for x
    using updatePosts_frame by blast
  show ?thesis
    using u e f [of s] f [of "s\<lparr>currentTag := tag\<rparr>"] f [of "s\<lparr>currentSort := ''date-asc''\<rparr>"]
      f [of "s\<lparr>currentSort := ''date-desc''\<rparr>"]
    by (simp add: tag_click_def sort_asc_click_def sort_desc_click_def)
qed

text \<open>The theorem of C7 at the document of two posts and at the document without posts.\<close>

theorem tag_set_is_union_witness:
  "list_all has_tags_array (corpus two_posts_loaded)
 \<and> set (allTags two_posts_loaded) = (\<Union>p \<in> set (corpus two_posts_loaded). set (tags_of p))
 \<and> allTags two_posts_loaded = [JStr ''x'', JStr ''y'']
 \<and> corpus (fetchData example_browser ''posts.xml'' (Response True 200 xml_no_posts) init_state) = []
 \<and> allTags (fetchData example_browser ''posts.xml'' (Response True 200 xml_no_posts) init_state) = []
 \<and> allTags (state_of (tag_click example_browser ''y'' two_posts_loaded))
     = allTags two_posts_loaded"
proof -
  have h: "\<forall>p \<in> set (corpus two_posts_loaded). has_tags_array p" by code_simp
  have v: "allTags two_posts_loaded = [JStr ''x'', JStr ''y'']" by code_simp
  have e: "corpus (fetchData example_browser ''posts.xml'' (Response True 200 xml_no_posts)
             init_state) = []"
    by code_simp
  note T1 = tag_set_is_union
    [of example_browser "''posts.xml''" "Response True 200 xml_two_posts" two_posts_loaded "''y''",
     folded two_posts_loaded_def]
  note T2 = tag_set_is_union
    [of example_browser "''posts.xml''" "Response True 200 xml_no_posts" two_posts_loaded "''y''"]
  have 1: "set (allTags two_posts_loaded)
           = (\<Union>p \<in> set (corpus two_posts_loaded). set (tags_of p))"
    by (rule T1 [THEN conjunct1, THEN mp, OF h])
  have 2: "allTags (fetchData example_browser ''posts.xml'' (Response True 200 xml_no_posts)
             init_state) = []"
    by (rule T2 [THEN conjunct2, THEN conjunct1, THEN mp, OF e])
  have 3: "allTags (state_of (tag_click example_browser ''y'' two_posts_loaded))
           = allTags two_posts_loaded"
    by (rule T1 [THEN conjunct2, THEN conjunct2, THEN conjunct2, THEN conjunct1])
  have hl: "list_all has_tags_array (corpus two_posts_loaded)"
    using h by (simp only: list_all_iff)
  show ?thesis
    by (intro conjI hl 1 v e 2 3)
qed

text \<open>
  Claim C8. \<^verbatim>\<open>updatePosts\<close> leaves the reference \<^verbatim>\<open>allPosts\<close> and the array it refers to
  as they are, whether it completes or raises. When it completes, \<^verbatim>\<open>displayedPosts\<close>
  refers to another array than \<^verbatim>\<open>allPosts\<close>, the displayed list is the view of the
  corpus under the current tag and sort order, a second call displays the same list, and so
  does a call in any state with the same corpus, tag and sort order.
\<close>

theorem updatePosts_pure:
  assumes "allPosts s < length (heap s)"
  shows "corpus (state_of (updatePosts P s)) = corpus s
       \<and> allPosts (state_of (updatePosts P s)) = allPosts s
       \<and> (\<forall>s'. updatePosts P s = Done s' \<longrightarrow>
             displayedPosts s' \<noteq> allPosts s'
           \<and> view P (currentTag s) (currentSort s) (corpus s) = Inr (displayList s')
           \<and> (\<exists>s''. updatePosts P s' = Done s'' \<and> displayList s'' = displayList s'
                    \<and> corpus s'' = corpus s)
           \<and> (\<forall>t t'. corpus t = corpus s \<and> currentTag t = currentTag s
                    \<and> currentSort t = currentSort s \<and> updatePosts P t = Done t' \<longrightarrow>
                  displayList t' = displayList s'))"
proof (intro conjI allI impI)
  show "corpus (state_of (updatePosts P s)) = corpus s"
    using assms by (rule updatePosts_corpus)
  show "allPosts (state_of (updatePosts P s)) = allPosts s"
    using updatePosts_frame by blast
next
  fix s' assume d: "updatePosts P s = Done s'"
  then obtain ys where v: "view P (currentTag s) (currentSort s) (corpus s) = Inr ys"
    and s': "s' = s\<lparr>heap := heap s @ [ys], displayedPosts := length (heap s)\<rparr>"
    unfolding updatePosts_Done_iff by blast
  have dl: "displayList s' = ys" using s' by (simp add: displayList_def)
  have c: "corpus s' = corpus s" using s' assms by (simp add: corpus_def nth_append)
  show "displayedPosts s' \<noteq> allPosts s'" using s' assms by simp
  show "view P (currentTag s) (currentSort s) (corpus s) = Inr (displayList s')"
    using v dl by simp
  have "view P (currentTag s') (currentSort s') (corpus s') = Inr ys"
    using v c s' by simp
  from updatePosts_Done [OF this]
  show "\<exists>s''. updatePosts P s' = Done s'' \<and> displayList s'' = displayList s'
             \<and> corpus s'' = corpus s"
    using dl c s' assms by (simp add: displayList_def corpus_def nth_append)
next
  fix s' t t'
  assume d: "updatePosts P s = Done s'"
    and t: "corpus t = corpus s \<and> currentTag t = currentTag s
            \<and> currentSort t = currentSort s \<and> updatePosts P t = Done t'"
  from d obtain ys where v: "view P (currentTag s) (currentSort s) (corpus s) = Inr ys"
    and s': "s' = s\<lparr>heap := heap s @ [ys], displayedPosts := length (heap s)\<rparr>"
    unfolding updatePosts_Done_iff by blast
  from t obtain zs where v': "view P (currentTag t) (currentSort t) (corpus t) = Inr zs"
    and t': "t' = t\<lparr>heap := heap t @ [zs], displayedPosts := length (heap t)\<rparr>"
    unfolding updatePosts_Done_iff by blast
  have "zs = ys" using v v' t by simp
  then show "displayList t' = displayList s'"
    using s' t' by (simp add: displayList_def)
qed

text \<open>The theorem of C8 at the loaded document of two posts.\<close>

theorem updatePosts_pure_witness:
  "allPosts two_posts_loaded < length (heap two_posts_loaded)
 \<and> updatePosts example_browser two_posts_loaded
     = Done (state_of (updatePosts example_browser two_posts_loaded))
 \<and> corpus (state_of (updatePosts example_browser two_posts_loaded)) = corpus two_posts_loaded
 \<and> displayedPosts (state_of (updatePosts example_browser two_posts_loaded))
     \<noteq> allPosts (state_of (updatePosts example_browser two_posts_loaded))
 \<and> (\<exists>s''. updatePosts example_browser (state_of (updatePosts example_browser two_posts_loaded))
             = Done s''
          \<and> displayList s'' = displayList (state_of (updatePosts example_browser two_posts_loaded))
          \<and> corpus s'' = corpus two_posts_loaded)"
proof -
  let ?s' = "state_of (updatePosts example_browser two_posts_loaded)"
  have a: "allPosts two_posts_loaded < length (heap two_posts_loaded)" by code_simp
  have d: "updatePosts example_browser two_posts_loaded = Done ?s'" by code_simp
  note T = updatePosts_pure [OF a, of example_browser]
  have 1: "corpus ?s' = corpus two_posts_loaded"
    by (rule T [THEN conjunct1])
  have "displayedPosts ?s' \<noteq> allPosts ?s'
           \<and> view example_browser (currentTag two_posts_loaded) (currentSort two_posts_loaded)
               (corpus two_posts_loaded) = Inr (displayList ?s')
           \<and> (\<exists>s''. updatePosts example_browser ?s' = Done s'' \<and> displayList s'' = displayList ?s'
                    \<and> corpus s'' = corpus two_posts_loaded)
           \<and> (\<forall>t t'. corpus t = corpus two_posts_loaded \<and> currentTag t = currentTag two_posts_loaded
                    \<and> currentSort t = currentSort two_posts_loaded
                    \<and> updatePosts example_browser t = Done t' \<longrightarrow>
                  displayList t' = displayList ?s')"
    by (rule T [THEN conjunct2, THEN conjunct2, THEN spec, THEN mp, OF d])
  then have 2: "displayedPosts ?s' \<noteq> allPosts ?s'"
    and 3: "\<exists>s''. updatePosts example_browser ?s' = Done s'' \<and> displayList s'' = displayList ?s'
                    \<and> corpus s'' = corpus two_posts_loaded"
    by blast+
  show ?thesis
    by (intro conjI a d 1 2 3)
qed

text \<open>
  Claim C9. A text that parses as a JSON array, loaded from a file named \<^verbatim>\<open>.json\<close>, gives
  the elements of the array as the corpus, as many and in their order; a text that parses
  as an object gives the corpus of that one object.
\<close>

theorem json_array_in_order:
  assumes "ends_with dataFile ''.json''" and "json_parse P text = Some v"
  shows "(\<forall>xs. v = JArr xs \<longrightarrow>
            parseJsonData v = xs
          \<and> corpus (fetchData P dataFile (Response True status text) init_state) = xs
          \<and> length (corpus (fetchData P dataFile (Response True status text) init_state))
              = length xs)
       \<and> (\<forall>kvs. v = JObj kvs \<longrightarrow>
            parseJsonData v = [JObj kvs]
          \<and> corpus (fetchData P dataFile (Response True status text) init_state) = [JObj kvs])"
proof -
  have p: "parse_posts P dataFile text = Inr (parseJsonData v)"
    using assms by (simp add: parse_posts_def)
  show ?thesis
    using fetchData_corpus [OF p, of status init_state] by auto
qed

text \<open>The theorem of C9 at the array of two posts and at the single post.\<close>

theorem json_array_in_order_witness:
  "ends_with ''posts.json'' ''.json''
 \<and> corpus (fetchData example_browser ''posts.json'' (Response True 200 json_two_posts) init_state)
     = [JObj [(''title'', JStr ''A''), (''date'', JStr ''2024-01-01''),
              (''tags'', JArr [JStr ''x''])],
        JObj [(''title'', JStr ''B''), (''date'', JStr ''2023-06-01''),
              (''tags'', JArr [JStr ''y''])]]
 \<and> corpus (fetchData example_browser ''posts.json'' (Response True 200 json_solo) init_state)
     = [JObj [(''title'', JStr ''Solo''), (''date'', JStr ''not-a-date''), (''tags'', JArr [])]]"
proof -
  have e: "ends_with ''posts.json'' ''.json''" by (simp add: ends_with_def)
  have a: "json_parse example_browser json_two_posts
     = Some (JArr [JObj [(''title'', JStr ''A''), (''date'', JStr ''2024-01-01''),
                        (''tags'', JArr [JStr ''x''])],
                  JObj [(''title'', JStr ''B''), (''date'', JStr ''2023-06-01''),
                        (''tags'', JArr [JStr ''y''])]])"
    by code_simp
  have b: "json_parse example_browser json_solo
     = Some (JObj [(''title'', JStr ''Solo''), (''date'', JStr ''not-a-date''),
                   (''tags'', JArr [])])"
    by code_simp
  show ?thesis
    using json_array_in_order [OF e a, of 200] json_array_in_order [OF e b, of 200] e
    by blast
qed

text \<open>
  Claim C10. The tag \<^verbatim>\<open>'all'\<close> is tested first, so with it the filter step returns every
  post of every corpus; and no value of the tag makes the filter step select, in every
  corpus, the posts that carry the tag \<^verbatim>\<open>'all'\<close>: for each value there is a corpus with
  such a post on which the filter step returns something else.
\<close>

theorem all_is_reserved:
  "(\<forall>posts. filter_posts ''all'' posts = Inr posts)
 \<and> (\<forall>tag. \<exists>posts. (\<forall>p \<in> set posts. has_tags_array p)
        \<and> (\<exists>p \<in> set posts. carries ''all'' p)
        \<and> filter_posts tag posts \<noteq> Inr (filter (carries ''all'') posts))"
proof (intro conjI allI)
  fix posts show "filter_posts ''all'' posts = Inr posts" by (rule filter_posts_all)
next
  fix tag :: string
  let ?a = "JObj [(''tags'', JArr [JStr ''all''])]"
  let ?n = "JObj [(''tags'', JArr [])]"
  have wf: "\<forall>p \<in> set [?a, ?n]. has_tags_array p" by (simp add: has_tags_array_def)
  have ca: "carries ''all'' ?a" and cn: "\<not> carries ''all'' ?n"
    by (simp_all add: carries_def tags_of_def)
  show "\<exists>posts. (\<forall>p \<in> set posts. has_tags_array p) \<and> (\<exists>p \<in> set posts. carries ''all'' p)
        \<and> filter_posts tag posts \<noteq> Inr (filter (carries ''all'') posts)"
  proof (cases "tag = ''all''")
    case True
    have "filter_posts tag [?a, ?n] \<noteq> Inr (filter (carries ''all'') [?a, ?n])"
      using True ca cn by (simp add: filter_posts_all)
    with wf ca show ?thesis by (intro exI [of _ "[?a, ?n]"]) simp
  next
    case False
    have "\<not> carries tag ?a" using False by (simp add: carries_def tags_of_def)
    then have "filter_posts tag [?a, ?n] \<noteq> Inr (filter (carries ''all'') [?a, ?n])"
      using False ca cn wf by (simp add: filter_posts_tag)
    with wf ca show ?thesis by (intro exI [of _ "[?a, ?n]"]) simp
  qed
qed

text \<open>The theorem of C10 at a post tagged \<^verbatim>\<open>'all'\<close> next to an untagged one, and at the tag \<^verbatim>\<open>'All'\<close>.\<close>

theorem all_is_reserved_witness:
  "filter_posts ''all'' [JObj [(''tags'', JArr [JStr ''all''])], JObj [(''tags'', JArr [])]]
     = Inr [JObj [(''tags'', JArr [JStr ''all''])], JObj [(''tags'', JArr [])]]
 \<and> (\<exists>posts. (\<forall>p \<in> set posts. has_tags_array p)
        \<and> (\<exists>p \<in> set posts. carries ''all'' p)
        \<and> filter_posts ''All'' posts \<noteq> Inr (filter (carries ''all'') posts))"
  using all_is_reserved by blast

end
